theory Spec2Isabelle
  imports Complex_Main
begin

section \<open>The ledger snapshot of the GiftNFT server\<close>

text \<open>
  The server keeps one JSON document (\<^verbatim>\<open>./data/db.json\<close>) with the collections
  \<^verbatim>\<open>users\<close>, \<^verbatim>\<open>items\<close>, \<^verbatim>\<open>history\<close> and, once first used, \<^verbatim>\<open>payments\<close> and
  \<^verbatim>\<open>notifications\<close>. Every route of \<^verbatim>\<open>server.js\<close> that changes it goes through
  \<^verbatim>\<open>transact\<close> of \<^verbatim>\<open>store.js\<close>.

  Conventions of the embedding.
  \<^item> A JavaScript number is a \<^typ>\<open>rat\<close>, the value of the double. The payment handlers
    hold and refund money with the subtraction and addition of the source, which round
    their result to the nearest double (\<open>js_sub\<close>, \<open>js_add\<close> below); the other handlers
    compute with the exact operations. Infinities are outside the model. \<^verbatim>\<open>NaN\<close> (the
    result of \<^verbatim>\<open>Number(x)\<close> on a missing or non-numeric field) is \<^term>\<open>None\<close> of a
    \<^typ>\<open>rat option\<close>.
  \<^item> A string field of a request body is a \<^typ>\<open>string\<close>; a missing field is the empty
    string, which the guards \<^verbatim>\<open>!x\<close> of the source treat like a missing one.
  \<^item> An object found with \<^verbatim>\<open>find\<close> is a reference into its array: the model keeps its
    index and writes through it.
  \<^item> \<^verbatim>\<open>nanoid\<close>, \<^verbatim>\<open>Date.now\<close>, the printing of a number inside a template string and
    \<^verbatim>\<open>encodeURIComponent\<close> come from the environment, indexed by the position of the call
    inside the handler.
  \<^item> The Socket.IO emissions and the body of a successful response are not part of the
    snapshot and are left out. The \<^verbatim>\<open>auth\<close> middleware (the check of the token) is in
    front of the model: a request arrives with its verified caller.
\<close>

type_synonym num = rat

record user =
  u_id :: string
  u_name :: string
  u_email :: string
  u_pass :: string
  u_role :: string
  u_balance :: num
  u_owned :: "string list"
  u_gifts :: num
  u_banned :: "bool option"

record item =
  it_id :: string
  it_name :: string
  it_price :: num
  it_rating :: num
  it_img :: string
  it_collection :: string
  it_stars :: num
  it_level :: num
  it_ownerId :: "string option"
  it_createdAt :: nat

record payment =
  p_id :: string
  p_userId :: string
  p_kind :: string
  p_amountTon :: num
  p_usd :: num
  p_tonAddress :: "string option"
  p_status :: string
  p_ts :: nat
  p_adminId :: "string option"
  p_note :: "string option"

record history_entry =
  h_userId :: string
  h_t :: string
  h_ts :: nat

datatype jvalue = JStr string | JNum num

record notification =
  n_id :: string
  n_userId :: string
  n_type :: string
  n_payload :: "(string \<times> jvalue) list"
  n_read :: bool
  n_ts :: nat

record db =
  users :: "user list"
  items :: "item list"
  history :: "history_entry list"
  payments :: "payment list option"
  notifications :: "notification list option"

text \<open>\<^verbatim>\<open>req.user\<close>, the verified token's payload \<^verbatim>\<open>{ id, role }\<close>.\<close>

record caller =
  c_id :: string
  c_role :: string

record env =
  nanoid :: "nat \<Rightarrow> nat \<Rightarrow> string"
  now :: "nat \<Rightarrow> nat"
  fmt :: "num \<Rightarrow> string"
  encodeURIComponent :: "string \<Rightarrow> string"

text \<open>
  What a handler ends with: a success response, \<^verbatim>\<open>res.status(code).json({ error })\<close>, or an
  uncaught \<^verbatim>\<open>TypeError\<close> (a property read on \<^verbatim>\<open>undefined\<close>).
\<close>

datatype outcome = Success | Reject nat string | TypeError

definition TON_USD :: num where
  "TON_USD = 7 / 2"

subsection \<open>JavaScript helpers\<close>

text \<open>\<^verbatim>\<open>x || 0\<close> on a number.\<close>

definition or0 :: "num \<Rightarrow> num" where
  "or0 x = (if x = 0 then 0 else x)"

text \<open>Truthiness of a nullable string: \<^verbatim>\<open>null\<close> and \<^verbatim>\<open>''\<close> are falsy.\<close>

fun truthy :: "string option \<Rightarrow> bool" where
  "truthy None = False"
| "truthy (Some s) = (s \<noteq> [])"

text \<open>\<^verbatim>\<open>Array.prototype.findIndex\<close>, with \<^term>\<open>None\<close> for \<^verbatim>\<open>-1\<close>; \<^verbatim>\<open>find\<close> returns the
  element at that index, by reference.\<close>

fun findIndex :: "('a \<Rightarrow> bool) \<Rightarrow> 'a list \<Rightarrow> nat option" where
  "findIndex P [] = None"
| "findIndex P (x # xs) = (if P x then Some 0 else map_option Suc (findIndex P xs))"

text \<open>A write through the reference at index \<open>i\<close>.\<close>

definition upd :: "nat \<Rightarrow> ('a \<Rightarrow> 'a) \<Rightarrow> 'a list \<Rightarrow> 'a list" where
  "upd i f xs = xs[i := f (xs ! i)]"

text \<open>\<^verbatim>\<open>db.payments || []\<close> and \<^verbatim>\<open>db.notifications || []\<close>.\<close>

definition or_empty :: "'a list option \<Rightarrow> 'a list" where
  "or_empty xs = (case xs of None \<Rightarrow> [] | Some ys \<Rightarrow> ys)"

subsection \<open>Arithmetic on doubles\<close>

text \<open>
  A JavaScript number is an IEEE 754 binary64 value, and \<^verbatim>\<open>+\<close>, \<^verbatim>\<open>-\<close> and \<^verbatim>\<open>*\<close> return the
  double nearest to the exact result, ties going to the even significand. \<open>expo x\<close> is the
  binary exponent of \<open>x\<close> (\<open>2 ^ expo x \<le> \<bar>x\<bar> < 2 ^ (expo x + 1)\<close>), found from the bit lengths
  of numerator and denominator; a double has 53 significant bits, and below \<open>2 ^ -1022\<close> the
  spacing stays at \<open>2 ^ -1074\<close>. Results beyond the largest double are not modelled.
\<close>

function log2i :: "int \<Rightarrow> int" where
  "log2i n = (if n < 2 then 0 else 1 + log2i (n div 2))"
  by pat_completeness auto
termination
  by (relation "measure nat") auto

definition pow2 :: "int \<Rightarrow> rat" where
  "pow2 e = (if 0 \<le> e then 2 ^ nat e else 1 / 2 ^ nat (- e))"

definition expo :: "rat \<Rightarrow> int" where
  "expo x =
     (case quotient_of \<bar>x\<bar> of (p, q) \<Rightarrow>
        let e0 = log2i p - log2i q
        in if pow2 e0 \<le> \<bar>x\<bar> then e0 else e0 - 1)"

definition round_even :: "rat \<Rightarrow> int" where
  "round_even y =
     (let f = \<lfloor>y\<rfloor>; r = y - of_int f
      in if r < 1 / 2 then f else if 1 / 2 < r then f + 1 else if even f then f else f + 1)"

text \<open>The double nearest to a rational.\<close>

definition fl :: "rat \<Rightarrow> num" where
  "fl x =
     (if x = 0 then 0
      else let e = max (expo x - 52) (- 1074)
           in of_int (round_even (x / pow2 e)) * pow2 e)"

definition js_add :: "num \<Rightarrow> num \<Rightarrow> num" where
  "js_add a b = fl (a + b)"

definition js_sub :: "num \<Rightarrow> num \<Rightarrow> num" where
  "js_sub a b = fl (a - b)"

definition js_mul :: "num \<Rightarrow> num \<Rightarrow> num" where
  "js_mul a b = fl (a * b)"

text \<open>\<^verbatim>\<open>+(x).toFixed(2)\<close>: the decimal with two places nearest to the double \<open>x\<close>, the larger in
  magnitude of two equally near, read back as a double.\<close>

definition toFixed2 :: "num \<Rightarrow> num" where
  "toFixed2 x =
     (if x < 0 then - fl (of_int \<lfloor>- x * 100 + 1 / 2\<rfloor> / 100)
      else fl (of_int \<lfloor>x * 100 + 1 / 2\<rfloor> / 100))"

subsection \<open>store.js\<close>

text \<open>
  \<^verbatim>\<open>transact(mutator)\<close> loads the document, runs the mutator on it and saves whatever the
  mutator left in it, whether the mutator answered with a success or with an error. When
  the mutator throws, \<^verbatim>\<open>saveDB\<close> is not reached and the file stays as it was.
\<close>

definition transact :: "(db \<Rightarrow> outcome \<times> db) \<Rightarrow> db \<Rightarrow> outcome \<times> db" where
  "transact mutator file =
     (case mutator file of
        (TypeError, _) \<Rightarrow> (TypeError, file)
      | (r, db') \<Rightarrow> (r, db'))"

text \<open>\<^verbatim>\<open>adminOnly\<close>: the middleware in front of every \<^verbatim>\<open>/api/admin\<close> route.\<close>

definition adminOnly :: "caller \<Rightarrow> (db \<Rightarrow> outcome \<times> db) \<Rightarrow> db \<Rightarrow> outcome \<times> db" where
  "adminOnly c next file =
     (if c_role c \<noteq> ''admin'' then (Reject 403 ''Admin only'', file) else next file)"

subsection \<open>Notifications\<close>

text \<open>\<^verbatim>\<open>pushNotify\<close>; \<open>k\<close> and \<open>j\<close> are the positions of its \<^verbatim>\<open>nanoid\<close> and \<^verbatim>\<open>Date.now\<close>
  calls inside the calling handler.\<close>

definition pushNotify ::
  "env \<Rightarrow> nat \<Rightarrow> nat \<Rightarrow> string \<Rightarrow> string \<Rightarrow> (string \<times> jvalue) list \<Rightarrow> db \<Rightarrow> db" where
  "pushNotify e k j userId type payload d =
     d\<lparr>notifications := Some (or_empty (notifications d) @
        [\<lparr>n_id = nanoid e 12 k, n_userId = userId, n_type = type, n_payload = payload,
          n_read = False, n_ts = now e j\<rparr>])\<rparr>"

text \<open>\<^verbatim>\<open>POST /api/notifications/read\<close>.\<close>

definition notifications_read :: "caller \<Rightarrow> string list \<Rightarrow> db \<Rightarrow> outcome \<times> db" where
  "notifications_read c ids file =
     transact (\<lambda>d.
       (Success,
        d\<lparr>notifications := Some (map (\<lambda>n.
            if n_userId n = c_id c \<and> n_id n \<in> set ids then n\<lparr>n_read := True\<rparr> else n)
          (or_empty (notifications d)))\<rparr>)) file"

subsection \<open>Payments\<close>

text \<open>\<^verbatim>\<open>POST /api/payments/deposit/request\<close>.\<close>

definition deposit_request :: "env \<Rightarrow> caller \<Rightarrow> num option \<Rightarrow> db \<Rightarrow> outcome \<times> db" where
  "deposit_request e c amountTon file =
     (case amountTon of
        None \<Rightarrow> (Reject 400 ''amountTon > 0 required'', file)
      | Some amt \<Rightarrow>
          if \<not> amt > 0 then (Reject 400 ''amountTon > 0 required'', file)
          else transact (\<lambda>d.
            let pay = \<lparr>p_id = nanoid e 12 0, p_userId = c_id c, p_kind = ''deposit'',
                       p_amountTon = amt, p_usd = toFixed2 (js_mul amt TON_USD),
                       p_tonAddress = None, p_status = ''pending'', p_ts = now e 0,
                       p_adminId = None, p_note = None\<rparr>;
                d1 = d\<lparr>payments := Some (or_empty (payments d) @ [pay])\<rparr>;
                d2 = pushNotify e 1 1 (c_id c) ''deposit_requested''
                       [(''id'', JStr (p_id pay)), (''amountTon'', JNum amt)] d1
            in (Success, d2)) file)"

text \<open>\<^verbatim>\<open>POST /api/payments/withdraw/request\<close>: the unit of work handed to \<^verbatim>\<open>transact\<close>,
  then the route with its checks of the body.\<close>

definition withdraw_mutator :: "env \<Rightarrow> caller \<Rightarrow> num \<Rightarrow> string \<Rightarrow> db \<Rightarrow> outcome \<times> db" where
  "withdraw_mutator e c amt tonAddress d =
     (case findIndex (\<lambda>u. u_id u = c_id c) (users d) of
        None \<Rightarrow> (Reject 404 ''User not found'', d)
      | Some me \<Rightarrow>
          if or0 (u_balance (users d ! me)) < amt then (Reject 400 ''Insufficient balance'', d)
          else
            let d1 = d\<lparr>users := upd me
                       (\<lambda>u. u\<lparr>u_balance := js_sub (u_balance u) amt\<rparr>) (users d)\<rparr>;
                pay = \<lparr>p_id = nanoid e 12 0, p_userId = c_id c, p_kind = ''withdraw'',
                       p_amountTon = amt, p_usd = toFixed2 (js_mul amt TON_USD),
                       p_tonAddress = Some tonAddress, p_status = ''pending'', p_ts = now e 0,
                       p_adminId = None, p_note = None\<rparr>;
                d2 = d1\<lparr>payments := Some (or_empty (payments d1) @ [pay])\<rparr>;
                d3 = d2\<lparr>history := history d2 @
                       [\<lparr>h_userId = c_id c,
                         h_t = ''Withdrawal requested '' @ fmt e amt @ '' TON to '' @ tonAddress
                               @ '' (held)'',
                         h_ts = now e 1\<rparr>]\<rparr>;
                d4 = pushNotify e 1 2 (c_id c) ''withdraw_requested''
                       [(''id'', JStr (p_id pay)), (''amountTon'', JNum amt)] d3
            in (Success, d4))"

definition withdraw_request ::
  "env \<Rightarrow> caller \<Rightarrow> num option \<Rightarrow> string \<Rightarrow> db \<Rightarrow> outcome \<times> db" where
  "withdraw_request e c amountTon tonAddress file =
     (case amountTon of
        None \<Rightarrow> (Reject 400 ''amountTon > 0 required'', file)
      | Some amt \<Rightarrow>
          if \<not> amt > 0 then (Reject 400 ''amountTon > 0 required'', file)
          else if tonAddress = [] \<or> length tonAddress < 5
            then (Reject 400 ''Valid tonAddress required'', file)
          else transact (withdraw_mutator e c amt tonAddress) file)"

text \<open>\<^verbatim>\<open>POST /api/admin/payments/approve\<close>.\<close>

definition admin_payments_approve :: "env \<Rightarrow> caller \<Rightarrow> string \<Rightarrow> db \<Rightarrow> outcome \<times> db" where
  "admin_payments_approve e c pid file =
     adminOnly c (\<lambda>file.
       if pid = [] then (Reject 400 ''id required'', file)
       else transact (\<lambda>d.
         case findIndex (\<lambda>x. p_id x = pid) (or_empty (payments d)) of
           None \<Rightarrow> (Reject 404 ''Payment not found'', d)
         | Some k \<Rightarrow>
             let p = or_empty (payments d) ! k in
             if p_status p \<noteq> ''pending'' then (Reject 400 ''Already processed'', d)
             else
               (case findIndex (\<lambda>u. u_id u = p_userId p) (users d) of
                  None \<Rightarrow> (Reject 404 ''User not found'', d)
                | Some ui \<Rightarrow>
                    let usr = users d ! ui;
                        d1 = (if p_kind p = ''deposit'' then
                                d\<lparr>users := upd ui (\<lambda>u. u\<lparr>u_balance :=
                                               js_add (or0 (u_balance u)) (p_amountTon p)\<rparr>)
                                             (users d),
                                  history := history d @
                                    [\<lparr>h_userId = u_id usr,
                                      h_t = ''Deposit approved '' @ fmt e (p_amountTon p)
                                            @ '' TON (+$'' @ fmt e (p_usd p) @ '')'',
                                      h_ts = now e 0\<rparr>]\<rparr>
                              else if p_kind p = ''withdraw'' then
                                d\<lparr>history := history d @
                                    [\<lparr>h_userId = u_id usr,
                                      h_t = ''Withdrawal approved '' @ fmt e (p_amountTon p)
                                            @ '' TON to ''
                                            @ (case p_tonAddress p of
                                                 None \<Rightarrow> ''undefined'' | Some a \<Rightarrow> a),
                                      h_ts = now e 0\<rparr>]\<rparr>
                              else d);
                        d2 = d1\<lparr>payments := Some (upd k
                               (\<lambda>x. x\<lparr>p_status := ''approved'', p_adminId := Some (c_id c)\<rparr>)
                               (or_empty (payments d1)))\<rparr>;
                        d3 = pushNotify e 0
                               (if p_kind p = ''deposit'' \<or> p_kind p = ''withdraw'' then 1 else 0)
                               (u_id usr) ''payment_approved''
                               [(''id'', JStr (p_id p)), (''kind'', JStr (p_kind p)),
                                (''amountTon'', JNum (p_amountTon p))] d2
                    in (Success, d3))) file) file"

text \<open>\<^verbatim>\<open>POST /api/admin/payments/reject\<close>; \<^verbatim>\<open>note || ''\<close> is the note itself.\<close>

definition admin_payments_reject :: "env \<Rightarrow> caller \<Rightarrow> string \<Rightarrow> string \<Rightarrow> db \<Rightarrow> outcome \<times> db" where
  "admin_payments_reject e c pid note file =
     adminOnly c (\<lambda>file.
       if pid = [] then (Reject 400 ''id required'', file)
       else transact (\<lambda>d.
         case findIndex (\<lambda>x. p_id x = pid) (or_empty (payments d)) of
           None \<Rightarrow> (Reject 404 ''Payment not found'', d)
         | Some k \<Rightarrow>
             let p = or_empty (payments d) ! k in
             if p_status p \<noteq> ''pending'' then (Reject 400 ''Already processed'', d)
             else
               (case findIndex (\<lambda>u. u_id u = p_userId p) (users d) of
                  None \<Rightarrow> (Reject 404 ''User not found'', d)
                | Some ui \<Rightarrow>
                    let usr = users d ! ui;
                        d1 = (if p_kind p = ''withdraw'' then
                                d\<lparr>users := upd ui (\<lambda>u. u\<lparr>u_balance :=
                                               js_add (or0 (u_balance u)) (p_amountTon p)\<rparr>)
                                             (users d),
                                  history := history d @
                                    [\<lparr>h_userId = u_id usr,
                                      h_t = ''Withdrawal rejected '' @ fmt e (p_amountTon p)
                                            @ '' TON (refunded)'',
                                      h_ts = now e 0\<rparr>]\<rparr>
                              else d);
                        d2 = d1\<lparr>payments := Some (upd k
                               (\<lambda>x. x\<lparr>p_status := ''rejected'', p_adminId := Some (c_id c),
                                      p_note := Some note\<rparr>)
                               (or_empty (payments d1)))\<rparr>;
                        d3 = pushNotify e 0 (if p_kind p = ''withdraw'' then 1 else 0)
                               (u_id usr) ''payment_rejected''
                               [(''id'', JStr (p_id p)), (''kind'', JStr (p_kind p)),
                                (''amountTon'', JNum (p_amountTon p)), (''note'', JStr note)] d2
                    in (Success, d3))) file) file"

subsection \<open>Buying, gifting and upgrading\<close>

text \<open>
  \<^verbatim>\<open>POST /api/tx/pay\<close>. \<^verbatim>\<open>buyer\<close> is looked up first and never checked: when the caller has
  no user record it is \<^verbatim>\<open>undefined\<close>, and the first read of \<^verbatim>\<open>buyer.balance\<close> throws.
\<close>

definition tx_pay :: "env \<Rightarrow> caller \<Rightarrow> string \<Rightarrow> string \<Rightarrow> string \<Rightarrow> db \<Rightarrow> outcome \<times> db" where
  "tx_pay e c itemId mode toUserId file =
     (if itemId = [] \<or> mode = [] then (Reject 400 ''itemId and mode required'', file)
      else transact (\<lambda>d.
        let buyer = findIndex (\<lambda>u. u_id u = c_id c) (users d) in
        case findIndex (\<lambda>x. it_id x = itemId) (items d) of
          None \<Rightarrow> (Reject 404 ''Item not found'', d)
        | Some i \<Rightarrow>
            let item = items d ! i; price = it_price item in
            if truthy (it_ownerId item) then (Reject 400 ''Already sold'', d)
            else if mode = ''buy'' then
              (case buyer of
                 None \<Rightarrow> (TypeError, d)
               | Some b \<Rightarrow>
                   if u_balance (users d ! b) < price
                     then (Reject 400 ''Insufficient balance'', d)
                   else
                     let d1 = d\<lparr>users := upd b
                                (\<lambda>u. u\<lparr>u_balance := u_balance u - price\<rparr>) (users d)\<rparr>;
                         d2 = d1\<lparr>items := upd i
                                (\<lambda>x. x\<lparr>it_ownerId := Some (u_id (users d1 ! b))\<rparr>) (items d1)\<rparr>;
                         d3 = d2\<lparr>users := upd b
                                (\<lambda>u. u\<lparr>u_owned := u_owned u @ [it_id (items d2 ! i)]\<rparr>)
                                (users d2)\<rparr>;
                         d4 = d3\<lparr>history := history d3 @
                                [\<lparr>h_userId = u_id (users d3 ! b),
                                  h_t = ''Bought '' @ it_id (items d3 ! i) @ '' for ''
                                        @ fmt e price @ '' TON'',
                                  h_ts = now e 0\<rparr>]\<rparr>
                     in (Success, d4))
            else if mode = ''gift'' then
              (if toUserId = [] then (Reject 400 ''toUserId required for gift mode'', d)
               else case findIndex (\<lambda>u. u_id u = toUserId) (users d) of
                 None \<Rightarrow> (Reject 404 ''Recipient not found'', d)
               | Some r \<Rightarrow>
                   (case buyer of
                      None \<Rightarrow> (TypeError, d)
                    | Some b \<Rightarrow>
                        if u_balance (users d ! b) < price
                          then (Reject 400 ''Insufficient balance'', d)
                        else
                          let d1 = d\<lparr>users := upd b
                                     (\<lambda>u. u\<lparr>u_balance := u_balance u - price\<rparr>) (users d)\<rparr>;
                              d2 = d1\<lparr>items := upd i
                                     (\<lambda>x. x\<lparr>it_ownerId := Some (u_id (users d1 ! r))\<rparr>)
                                     (items d1)\<rparr>;
                              d3 = d2\<lparr>users := upd r
                                     (\<lambda>u. u\<lparr>u_owned := u_owned u @ [it_id (items d2 ! i)]\<rparr>)
                                     (users d2)\<rparr>;
                              d4 = d3\<lparr>users := upd r
                                     (\<lambda>u. u\<lparr>u_gifts := or0 (u_gifts u) + 1\<rparr>) (users d3)\<rparr>;
                              d5 = d4\<lparr>history := history d4 @
                                     [\<lparr>h_userId = u_id (users d4 ! b),
                                       h_t = ''Gifted '' @ it_id (items d4 ! i) @ '' to ''
                                             @ u_id (users d4 ! r) @ '' for '' @ fmt e price
                                             @ '' TON'',
                                       h_ts = now e 0\<rparr>]\<rparr>;
                              d6 = d5\<lparr>history := history d5 @
                                     [\<lparr>h_userId = u_id (users d5 ! r),
                                       h_t = ''Received gift '' @ it_id (items d5 ! i)
                                             @ '' from '' @ u_id (users d5 ! b),
                                       h_ts = now e 1\<rparr>]\<rparr>
                          in (Success, d6)))
            else (Reject 400 ''Invalid mode'', d)) file)"

text \<open>\<^verbatim>\<open>POST /api/nft/upgrade\<close>.\<close>

definition nft_upgrade :: "env \<Rightarrow> caller \<Rightarrow> string \<Rightarrow> db \<Rightarrow> outcome \<times> db" where
  "nft_upgrade e c itemId file =
     (if itemId = [] then (Reject 400 ''id required'', file)
      else transact (\<lambda>d.
        case findIndex (\<lambda>x. it_id x = itemId) (items d) of
          None \<Rightarrow> (Reject 404 ''Item not found'', d)
        | Some i \<Rightarrow>
            if it_ownerId (items d ! i) \<noteq> Some (c_id c) then (Reject 403 ''Not owner'', d)
            else
              let d1 = d\<lparr>items := upd i
                         (\<lambda>x. x\<lparr>it_stars := max 0 (or0 (it_stars x) - 1)\<rparr>) (items d)\<rparr>;
                  d2 = d1\<lparr>items := upd i
                         (\<lambda>x. x\<lparr>it_level := or0 (it_level x) + 1\<rparr>) (items d1)\<rparr>;
                  d3 = d2\<lparr>history := history d2 @
                         [\<lparr>h_userId = c_id c,
                           h_t = ''Upgraded '' @ it_id (items d2 ! i) @ '' to level ''
                                 @ fmt e (it_level (items d2 ! i)) @ '' (stars ''
                                 @ fmt e (it_stars (items d2 ! i)) @ '')'',
                           h_ts = now e 0\<rparr>]\<rparr>
              in (Success, d3)) file)"

text \<open>\<^verbatim>\<open>POST /api/admin/gift\<close>: the recipient is charged.\<close>

definition admin_gift :: "env \<Rightarrow> caller \<Rightarrow> string \<Rightarrow> string \<Rightarrow> db \<Rightarrow> outcome \<times> db" where
  "admin_gift e c toUserId itemId file =
     adminOnly c (\<lambda>file.
       if toUserId = [] \<or> itemId = [] then (Reject 400 ''toUserId and itemId required'', file)
       else transact (\<lambda>d.
         case findIndex (\<lambda>u. u_id u = toUserId) (users d) of
           None \<Rightarrow> (Reject 404 ''User not found'', d)
         | Some r \<Rightarrow>
             (case findIndex (\<lambda>x. it_id x = itemId) (items d) of
                None \<Rightarrow> (Reject 404 ''Item not found'', d)
              | Some i \<Rightarrow>
                  let item = items d ! i; price = it_price item in
                  if truthy (it_ownerId item) then (Reject 400 ''Already owned'', d)
                  else if u_balance (users d ! r) < price
                    then (Reject 400 ''Recipient has insufficient balance to be charged'', d)
                  else
                    let d1 = d\<lparr>users := upd r
                               (\<lambda>u. u\<lparr>u_balance := u_balance u - price\<rparr>) (users d)\<rparr>;
                        d2 = d1\<lparr>items := upd i
                               (\<lambda>x. x\<lparr>it_ownerId := Some (u_id (users d1 ! r))\<rparr>) (items d1)\<rparr>;
                        d3 = d2\<lparr>users := upd r
                               (\<lambda>u. u\<lparr>u_owned := u_owned u @ [it_id (items d2 ! i)]\<rparr>)
                               (users d2)\<rparr>;
                        d4 = d3\<lparr>users := upd r
                               (\<lambda>u. u\<lparr>u_gifts := or0 (u_gifts u) + 1\<rparr>) (users d3)\<rparr>;
                        d5 = d4\<lparr>history := history d4 @
                               [\<lparr>h_userId = u_id (users d4 ! r),
                                 h_t = ''Admin issued gift '' @ it_id (items d4 ! i)
                                       @ '' (charged '' @ fmt e price @ '' TON)'',
                                 h_ts = now e 0\<rparr>]\<rparr>
                    in (Success, d5))) file) file"

subsection \<open>Administration of users\<close>

text \<open>\<^verbatim>\<open>POST /api/admin/users/balance\<close>; \<open>delta\<close> is \<^term>\<open>None\<close> when the body's \<^verbatim>\<open>delta\<close> is
  not a number.\<close>

definition admin_users_balance :: "env \<Rightarrow> caller \<Rightarrow> string \<Rightarrow> num option \<Rightarrow> db \<Rightarrow> outcome \<times> db" where
  "admin_users_balance e c userId delta file =
     adminOnly c (\<lambda>file.
       case delta of
         None \<Rightarrow> (Reject 400 ''userId and numeric delta required'', file)
       | Some dl \<Rightarrow>
           if userId = [] then (Reject 400 ''userId and numeric delta required'', file)
           else transact (\<lambda>d.
             case findIndex (\<lambda>x. u_id x = userId) (users d) of
               None \<Rightarrow> (Reject 404 ''User not found'', d)
             | Some i \<Rightarrow>
                 let d1 = d\<lparr>users := upd i
                            (\<lambda>u. u\<lparr>u_balance := max 0 (or0 (u_balance u) + dl)\<rparr>) (users d)\<rparr>;
                     d2 = d1\<lparr>history := history d1 @
                            [\<lparr>h_userId = userId,
                              h_t = ''Admin balance '' @ (if dl \<ge> 0 then ''credit'' else ''debit'')
                                    @ '' '' @ fmt e \<bar>dl\<bar> @ '' TON'',
                              h_ts = now e 0\<rparr>]\<rparr>
                 in (Success, d2)) file) file"

text \<open>\<^verbatim>\<open>POST /api/admin/users/ban\<close>; \<open>banned\<close> is \<^term>\<open>None\<close> when the body's \<^verbatim>\<open>banned\<close> is
  not a boolean.\<close>

definition admin_users_ban :: "caller \<Rightarrow> string \<Rightarrow> bool option \<Rightarrow> db \<Rightarrow> outcome \<times> db" where
  "admin_users_ban c userId banned file =
     adminOnly c (\<lambda>file.
       case banned of
         None \<Rightarrow> (Reject 400 ''userId and banned boolean required'', file)
       | Some b \<Rightarrow>
           if userId = [] then (Reject 400 ''userId and banned boolean required'', file)
           else transact (\<lambda>d.
             case findIndex (\<lambda>x. u_id x = userId) (users d) of
               None \<Rightarrow> (Reject 404 ''User not found'', d)
             | Some i \<Rightarrow>
                 (Success, d\<lparr>users := upd i (\<lambda>u. u\<lparr>u_banned := Some b\<rparr>) (users d)\<rparr>)) file) file"

subsection \<open>Administration of items\<close>

text \<open>A number printed in decimal, as \<^verbatim>\<open>'nft_' + (1000 + db.items.length)\<close> prints it.\<close>

definition digit :: "nat \<Rightarrow> char" where
  "digit n = ''0123456789'' ! n"

function string_of_nat :: "nat \<Rightarrow> string" where
  "string_of_nat n =
     (if n < 10 then [digit n] else string_of_nat (n div 10) @ [digit (n mod 10)])"
  by pat_completeness auto
termination
  by (relation "measure (\<lambda>n. n)") auto

definition next_item_id :: "db \<Rightarrow> string" where
  "next_item_id d = ''nft_'' @ string_of_nat (1000 + length (items d))"

text \<open>\<^verbatim>\<open>POST /api/admin/items/create\<close>; \<open>price\<close> is \<^term>\<open>None\<close> when the body's \<^verbatim>\<open>price\<close> is
  not a number, \<open>collection\<close> and \<open>rating\<close> are \<^term>\<open>None\<close> when the body leaves them out.\<close>

definition admin_items_create ::
  "env \<Rightarrow> caller \<Rightarrow> string \<Rightarrow> num option \<Rightarrow> string \<Rightarrow> string option \<Rightarrow> num option \<Rightarrow> db
     \<Rightarrow> outcome \<times> db" where
  "admin_items_create e c name price img collection rating file =
     adminOnly c (\<lambda>file.
       case price of
         None \<Rightarrow> (Reject 400 ''name and numeric price required'', file)
       | Some pr \<Rightarrow>
           if name = [] then (Reject 400 ''name and numeric price required'', file)
           else transact (\<lambda>d.
             (Success,
              d\<lparr>items := items d @
                [\<lparr>it_id = next_item_id d, it_name = name, it_price = pr,
                  it_rating = (case rating of None \<Rightarrow> 5 | Some r \<Rightarrow> r),
                  it_img = (if img = []
                            then ''https://picsum.photos/seed/'' @ encodeURIComponent e name
                                 @ ''/800''
                            else img),
                  it_collection = (case collection of None \<Rightarrow> ''Default'' | Some cl \<Rightarrow> cl),
                  it_stars = 3, it_level = 0, it_ownerId = None,
                  it_createdAt = now e 0\<rparr>]\<rparr>)) file) file"

text \<open>
  \<^verbatim>\<open>POST /api/admin/items/update\<close>: \<^verbatim>\<open>Object.assign(it, fields)\<close> with every field of the
  body but \<^verbatim>\<open>id\<close>. A field the body leaves out is \<^term>\<open>None\<close>.
\<close>

record item_fields =
  f_name :: "string option"
  f_price :: "num option"
  f_rating :: "num option"
  f_img :: "string option"
  f_collection :: "string option"
  f_stars :: "num option"
  f_level :: "num option"
  f_ownerId :: "string option option"
  f_createdAt :: "nat option"

definition assign :: "'a option \<Rightarrow> 'a \<Rightarrow> 'a" where
  "assign new old = (case new of None \<Rightarrow> old | Some v \<Rightarrow> v)"

definition assign_fields :: "item_fields \<Rightarrow> item \<Rightarrow> item" where
  "assign_fields f x =
     x\<lparr>it_name := assign (f_name f) (it_name x),
       it_price := assign (f_price f) (it_price x),
       it_rating := assign (f_rating f) (it_rating x),
       it_img := assign (f_img f) (it_img x),
       it_collection := assign (f_collection f) (it_collection x),
       it_stars := assign (f_stars f) (it_stars x),
       it_level := assign (f_level f) (it_level x),
       it_ownerId := assign (f_ownerId f) (it_ownerId x),
       it_createdAt := assign (f_createdAt f) (it_createdAt x)\<rparr>"

definition admin_items_update :: "caller \<Rightarrow> string \<Rightarrow> item_fields \<Rightarrow> db \<Rightarrow> outcome \<times> db" where
  "admin_items_update c itemId flds file =
     adminOnly c (\<lambda>file.
       if itemId = [] then (Reject 400 ''id required'', file)
       else transact (\<lambda>d.
         case findIndex (\<lambda>x. it_id x = itemId) (items d) of
           None \<Rightarrow> (Reject 404 ''Item not found'', d)
         | Some i \<Rightarrow> (Success, d\<lparr>items := upd i (assign_fields flds) (items d)\<rparr>)) file) file"

text \<open>\<^verbatim>\<open>POST /api/admin/items/delete\<close>: \<^verbatim>\<open>db.items.splice(idx, 1)\<close>.\<close>

definition admin_items_delete :: "caller \<Rightarrow> string \<Rightarrow> db \<Rightarrow> outcome \<times> db" where
  "admin_items_delete c itemId file =
     adminOnly c (transact (\<lambda>d.
       case findIndex (\<lambda>x. it_id x = itemId) (items d) of
         None \<Rightarrow> (Reject 404 ''Item not found'', d)
       | Some i \<Rightarrow> (Success, d\<lparr>items := take i (items d) @ drop (Suc i) (items d)\<rparr>))) file"

text \<open>\<^verbatim>\<open>POST /api/admin/items/clear\<close>.\<close>

definition admin_items_clear :: "caller \<Rightarrow> db \<Rightarrow> outcome \<times> db" where
  "admin_items_clear c file = adminOnly c (transact (\<lambda>d. (Success, d\<lparr>items := []\<rparr>))) file"

text \<open>
  \<^verbatim>\<open>POST /api/admin/items/bulkImport\<close>. An entry of the body's array: \<^verbatim>\<open>Number(x.price)\<close> and
  \<^verbatim>\<open>Number(x.rating)\<close> are \<^term>\<open>None\<close> for \<^verbatim>\<open>NaN\<close>, a missing \<^verbatim>\<open>stars\<close>, \<^verbatim>\<open>level\<close> or
  \<^verbatim>\<open>ownerId\<close> is \<^term>\<open>None\<close>, a missing string is empty.
\<close>

record import_item =
  i_name :: string
  i_price :: "num option"
  i_rating :: "num option"
  i_img :: string
  i_collection :: string
  i_stars :: "num option"
  i_level :: "num option"
  i_ownerId :: "string option"

text \<open>\<^verbatim>\<open>x || dflt\<close> on a number that may be missing or \<^verbatim>\<open>NaN\<close>.\<close>

definition num_or :: "num option \<Rightarrow> num \<Rightarrow> num" where
  "num_or x dflt = (case x of None \<Rightarrow> dflt | Some v \<Rightarrow> if v = 0 then dflt else v)"

definition import_one :: "env \<Rightarrow> import_item \<times> nat \<Rightarrow> db \<Rightarrow> db" where
  "import_one e xi d =
     (case xi of (x, idx) \<Rightarrow>
        let ident = next_item_id d in
        d\<lparr>items := items d @
          [\<lparr>it_id = ident,
            it_name = (if i_name x = [] then ''Item '' @ ident else i_name x),
            it_price = num_or (i_price x) 0,
            it_rating = num_or (i_rating x) 5,
            it_img = (if i_img x = []
                      then ''https://picsum.photos/seed/i'' @ string_of_nat idx @ ''/800''
                      else i_img x),
            it_collection = (if i_collection x = [] then ''Default'' else i_collection x),
            it_stars = num_or (i_stars x) 3,
            it_level = num_or (i_level x) 0,
            it_ownerId = (if truthy (i_ownerId x) then i_ownerId x else None),
            it_createdAt = now e idx\<rparr>]\<rparr>)"

definition admin_items_bulkImport ::
  "env \<Rightarrow> caller \<Rightarrow> import_item list option \<Rightarrow> db \<Rightarrow> outcome \<times> db" where
  "admin_items_bulkImport e c body_items file =
     adminOnly c (\<lambda>file.
       case body_items of
         None \<Rightarrow> (Reject 400 ''items array required'', file)
       | Some xs \<Rightarrow>
           transact (\<lambda>d. (Success, fold (import_one e) (zip xs [0..<length xs]) d)) file) file"

subsection \<open>Transfer and burn\<close>

text \<open>\<^verbatim>\<open>POST /api/admin/transfer\<close>.\<close>

definition admin_transfer :: "env \<Rightarrow> caller \<Rightarrow> string \<Rightarrow> string \<Rightarrow> db \<Rightarrow> outcome \<times> db" where
  "admin_transfer e c itemId toUserId file =
     adminOnly c (\<lambda>file.
       if itemId = [] \<or> toUserId = [] then (Reject 400 ''itemId and toUserId required'', file)
       else transact (\<lambda>d.
         case findIndex (\<lambda>x. it_id x = itemId) (items d) of
           None \<Rightarrow> (Reject 404 ''Item not found'', d)
         | Some i \<Rightarrow>
             (case findIndex (\<lambda>u. u_id u = toUserId) (users d) of
                None \<Rightarrow> (Reject 404 ''Target user not found'', d)
              | Some t \<Rightarrow>
                  let d1 = (if truthy (it_ownerId (items d ! i)) then
                              (case findIndex (\<lambda>u. Some (u_id u) = it_ownerId (items d ! i))
                                      (users d) of
                                 None \<Rightarrow> d
                               | Some pv \<Rightarrow>
                                   d\<lparr>users := upd pv
                                     (\<lambda>u. u\<lparr>u_owned :=
                                        filter (\<lambda>x. x \<noteq> it_id (items d ! i)) (u_owned u)\<rparr>)
                                     (users d)\<rparr>)
                            else d);
                      d2 = d1\<lparr>items := upd i
                             (\<lambda>x. x\<lparr>it_ownerId := Some (u_id (users d1 ! t))\<rparr>) (items d1)\<rparr>;
                      d3 = (if it_id (items d2 ! i) \<notin> set (u_owned (users d2 ! t)) then
                              d2\<lparr>users := upd t
                                (\<lambda>u. u\<lparr>u_owned := u_owned u @ [it_id (items d2 ! i)]\<rparr>)
                                (users d2)\<rparr>
                            else d2);
                      d4 = d3\<lparr>history := history d3 @
                             [\<lparr>h_userId = u_id (users d3 ! t),
                               h_t = ''Admin transferred '' @ it_id (items d3 ! i) @ '' to ''
                                     @ u_id (users d3 ! t),
                               h_ts = now e 0\<rparr>]\<rparr>
                  in (Success, d4))) file) file"

text \<open>\<^verbatim>\<open>POST /api/admin/burn\<close>.\<close>

definition admin_burn :: "env \<Rightarrow> caller \<Rightarrow> string \<Rightarrow> db \<Rightarrow> outcome \<times> db" where
  "admin_burn e c itemId file =
     adminOnly c (\<lambda>file.
       if itemId = [] then (Reject 400 ''itemId required'', file)
       else transact (\<lambda>d.
         case findIndex (\<lambda>x. it_id x = itemId) (items d) of
           None \<Rightarrow> (Reject 404 ''Item not found'', d)
         | Some i \<Rightarrow>
             let it = items d ! i;
                 d1 = (if truthy (it_ownerId it) then
                         (case findIndex (\<lambda>u. Some (u_id u) = it_ownerId it) (users d) of
                            None \<Rightarrow> d
                          | Some ow \<Rightarrow>
                              d\<lparr>users := upd ow
                                (\<lambda>u. u\<lparr>u_owned := filter (\<lambda>x. x \<noteq> it_id it) (u_owned u)\<rparr>)
                                (users d)\<rparr>)
                       else d);
                 d2 = d1\<lparr>items := filter (\<lambda>x. it_id x \<noteq> it_id it) (items d1)\<rparr>;
                 d3 = d2\<lparr>history := history d2 @
                        [\<lparr>h_userId = (if truthy (it_ownerId it) then the (it_ownerId it)
                                       else ''system''),
                          h_t = ''Admin burned '' @ it_id it,
                          h_ts = now e 0\<rparr>]\<rparr>
             in (Success, d3)) file) file"

subsection \<open>The routes\<close>

text \<open>One constructor per mutating route, with the fields of its body.\<close>

datatype request =
    NotificationsRead "string list"
  | DepositRequest "num option"
  | WithdrawRequest "num option" string
  | PaymentsApprove string
  | PaymentsReject string string
  | TxPay string string string
  | NftUpgrade string
  | AdminGift string string
  | UsersBalance string "num option"
  | UsersBan string "bool option"
  | ItemsCreate string "num option" string "string option" "num option"
  | ItemsUpdate string item_fields
  | ItemsDelete string
  | ItemsClear
  | ItemsBulkImport "import_item list option"
  | Transfer string string
  | Burn string

fun route :: "env \<Rightarrow> caller \<Rightarrow> request \<Rightarrow> db \<Rightarrow> outcome \<times> db" where
  "route e c (NotificationsRead ids) = notifications_read c ids"
| "route e c (DepositRequest amountTon) = deposit_request e c amountTon"
| "route e c (WithdrawRequest amountTon tonAddress) = withdraw_request e c amountTon tonAddress"
| "route e c (PaymentsApprove pid) = admin_payments_approve e c pid"
| "route e c (PaymentsReject pid note) = admin_payments_reject e c pid note"
| "route e c (TxPay itemId mode toUserId) = tx_pay e c itemId mode toUserId"
| "route e c (NftUpgrade itemId) = nft_upgrade e c itemId"
| "route e c (AdminGift toUserId itemId) = admin_gift e c toUserId itemId"
| "route e c (UsersBalance userId delta) = admin_users_balance e c userId delta"
| "route e c (UsersBan userId banned) = admin_users_ban c userId banned"
| "route e c (ItemsCreate name price img collection rating) =
     admin_items_create e c name price img collection rating"
| "route e c (ItemsUpdate itemId flds) = admin_items_update c itemId flds"
| "route e c (ItemsDelete itemId) = admin_items_delete c itemId"
| "route e c ItemsClear = admin_items_clear c"
| "route e c (ItemsBulkImport body_items) = admin_items_bulkImport e c body_items"
| "route e c (Transfer itemId toUserId) = admin_transfer e c itemId toUserId"
| "route e c (Burn itemId) = admin_burn e c itemId"

subsection \<open>Requests in flight\<close>

text \<open>
  \<^verbatim>\<open>transact\<close> is an \<^verbatim>\<open>async\<close> function: \<^verbatim>\<open>const db = await loadDB()\<close> gives the event loop
  back before the mutator runs, and nothing in \<^verbatim>\<open>store.js\<close> or \<^verbatim>\<open>server.js\<close> keeps a second
  request from loading the file in between. From the end of \<^verbatim>\<open>loadDB\<close> to the call of
  \<^verbatim>\<open>saveDB\<close> the handlers run without an \<^verbatim>\<open>await\<close>. A request in flight is therefore in
  one of three places: before its load, holding its own parsed copy, or answered.
\<close>

datatype task = Pending | Loaded db | Done outcome

record server =
  disk :: db
  tasks :: "task list"

text \<open>One turn of the event loop for the \<open>i\<close>-th request, whose unit of work is \<open>ws ! i\<close>.\<close>

definition turn :: "(db \<Rightarrow> outcome \<times> db) list \<Rightarrow> nat \<Rightarrow> server \<Rightarrow> server" where
  "turn ws i s =
     (if i < length (tasks s) \<and> i < length ws then
        (case tasks s ! i of
           Pending \<Rightarrow> s\<lparr>tasks := (tasks s)[i := Loaded (disk s)]\<rparr>
         | Loaded d \<Rightarrow>
             (case (ws ! i) d of
                (TypeError, _) \<Rightarrow> s\<lparr>tasks := (tasks s)[i := Done TypeError]\<rparr>
              | (r, d') \<Rightarrow> s\<lparr>disk := d', tasks := (tasks s)[i := Done r]\<rparr>)
         | Done r \<Rightarrow> s)
      else s)"

definition run :: "(db \<Rightarrow> outcome \<times> db) list \<Rightarrow> nat list \<Rightarrow> db \<Rightarrow> server" where
  "run ws schedule file =
     fold (turn ws) schedule \<lparr>disk = file, tasks = replicate (length ws) Pending\<rparr>"

subsection \<open>Observations\<close>

text \<open>\<^verbatim>\<open>db.users.find(u => u.id === id)\<close>, and the same for items and payments.\<close>

definition find_user :: "db \<Rightarrow> string \<Rightarrow> user option" where
  "find_user d uid = map_option (\<lambda>i. users d ! i) (findIndex (\<lambda>u. u_id u = uid) (users d))"

definition find_item :: "db \<Rightarrow> string \<Rightarrow> item option" where
  "find_item d itemId = map_option (\<lambda>i. items d ! i) (findIndex (\<lambda>x. it_id x = itemId) (items d))"

definition find_payment :: "db \<Rightarrow> string \<Rightarrow> payment option" where
  "find_payment d pid =
     map_option (\<lambda>i. or_empty (payments d) ! i)
       (findIndex (\<lambda>x. p_id x = pid) (or_empty (payments d)))"

definition balance_of :: "db \<Rightarrow> string \<Rightarrow> num option" where
  "balance_of d uid = map_option u_balance (find_user d uid)"

definition status_of :: "db \<Rightarrow> string \<Rightarrow> string option" where
  "status_of d pid = map_option p_status (find_payment d pid)"

subsection \<open>Requests served one after the other\<close>

fun serve :: "(env \<times> caller \<times> request) list \<Rightarrow> db \<Rightarrow> outcome list \<times> db" where
  "serve [] d = ([], d)"
| "serve ((e, c, r) # rest) d =
     (case route e c r d of (out, d') \<Rightarrow>
        (case serve rest d' of (outs, d'') \<Rightarrow> (out # outs, d'')))"

text \<open>An approve or a reject of the payment \<open>pid\<close>.\<close>

fun resolves :: "string \<Rightarrow> request \<Rightarrow> bool" where
  "resolves pid (PaymentsApprove x) = (x = pid)"
| "resolves pid (PaymentsReject x note) = (x = pid)"
| "resolves pid _ = False"

subsection \<open>A small ledger to run the handlers on\<close>

text \<open>
  The three seeded accounts of \<^verbatim>\<open>seed()\<close>, Alice funded with 10 TON and Bob with 5, and two
  items: \<^verbatim>\<open>nft_1000\<close> unsold at 5 TON, \<^verbatim>\<open>nft_1001\<close> owned by Bob.
\<close>

definition u_admin :: user where
  "u_admin = \<lparr>u_id = ''u_admin'', u_name = ''Admin'', u_email = ''admin@example.com'',
     u_pass = ''hash0'', u_role = ''admin'', u_balance = 0, u_owned = [], u_gifts = 0,
     u_banned = None\<rparr>"

definition alice :: user where
  "alice = \<lparr>u_id = ''u_1001'', u_name = ''Alice'', u_email = ''alice@example.com'',
     u_pass = ''hash1'', u_role = ''user'', u_balance = 10, u_owned = [], u_gifts = 0,
     u_banned = None\<rparr>"

definition bob :: user where
  "bob = \<lparr>u_id = ''u_1002'', u_name = ''Bob'', u_email = ''bob@example.com'',
     u_pass = ''hash2'', u_role = ''user'', u_balance = 5, u_owned = [''nft_1001''],
     u_gifts = 0, u_banned = None\<rparr>"

definition nft_1000 :: item where
  "nft_1000 = \<lparr>it_id = ''nft_1000'', it_name = ''Rose'', it_price = 5, it_rating = 5,
     it_img = ''rose.png'', it_collection = ''Default'', it_stars = 3, it_level = 0,
     it_ownerId = None, it_createdAt = 1\<rparr>"

definition nft_1001 :: item where
  "nft_1001 = \<lparr>it_id = ''nft_1001'', it_name = ''Bear'', it_price = 7, it_rating = 5,
     it_img = ''bear.png'', it_collection = ''Default'', it_stars = 3, it_level = 0,
     it_ownerId = Some ''u_1002'', it_createdAt = 2\<rparr>"

definition ledger0 :: db where
  "ledger0 = \<lparr>users = [u_admin, alice, bob], items = [nft_1000, nft_1001], history = [],
     payments = None, notifications = None\<rparr>"

definition as_admin :: caller where
  "as_admin = \<lparr>c_id = ''u_admin'', c_role = ''admin''\<rparr>"

definition as_alice :: caller where
  "as_alice = \<lparr>c_id = ''u_1001'', c_role = ''user''\<rparr>"

definition as_bob :: caller where
  "as_bob = \<lparr>c_id = ''u_1002'', c_role = ''user''\<rparr>"

text \<open>Two environments that hand out different identifiers.\<close>

definition env_a :: env where
  "env_a = \<lparr>nanoid = (\<lambda>n k. if k = 0 then ''aaaaaaaaaaa0'' else ''aaaaaaaaaaa1''),
     now = (\<lambda>k. 1000 + k), fmt = (\<lambda>x. string_of_nat (nat \<lfloor>x\<rfloor>)),
     encodeURIComponent = (\<lambda>s. s)\<rparr>"

definition env_b :: env where
  "env_b = \<lparr>nanoid = (\<lambda>n k. if k = 0 then ''bbbbbbbbbbb0'' else ''bbbbbbbbbbb1''),
     now = (\<lambda>k. 2000 + k), fmt = (\<lambda>x. string_of_nat (nat \<lfloor>x\<rfloor>)),
     encodeURIComponent = (\<lambda>s. s)\<rparr>"

text \<open>A withdrawal of Alice's that an administrator has already rejected.\<close>

definition pay_rejected :: payment where
  "pay_rejected = \<lparr>p_id = ''aaaaaaaaaaa0'', p_userId = ''u_1001'', p_kind = ''withdraw'',
     p_amountTon = 10, p_usd = 35, p_tonAddress = Some ''EQ0123456789'',
     p_status = ''rejected'', p_ts = 1000, p_adminId = Some ''u_admin'', p_note = Some []\<rparr>"

definition ledger_resolved :: db where
  "ledger_resolved = ledger0\<lparr>payments := Some [pay_rejected]\<rparr>"

text \<open>The doubles \<^verbatim>\<open>0.9\<close> and \<^verbatim>\<open>0.2\<close>, and the ledger in which Alice holds \<^verbatim>\<open>0.9\<close> TON.\<close>

definition dbl_0_9 :: num where
  "dbl_0_9 = 8106479329266893 / 9007199254740992"

definition dbl_0_2 :: num where
  "dbl_0_2 = 3602879701896397 / 18014398509481984"

definition ledger_tenths :: db where
  "ledger_tenths = ledger0\<lparr>users := [u_admin, alice\<lparr>u_balance := dbl_0_9\<rparr>, bob]\<rparr>"

text \<open>More callers, bodies and ledgers.\<close>

definition as_stranger :: caller where
  "as_stranger = \<lparr>c_id = ''u_gone'', c_role = ''user''\<rparr>"

definition no_fields :: item_fields where
  "no_fields = \<lparr>f_name = None, f_price = None, f_rating = None, f_img = None,
     f_collection = None, f_stars = None, f_level = None, f_ownerId = None,
     f_createdAt = None\<rparr>"

text \<open>The ledger after an administrator has stored \<open>-5\<close> stars on Bob's item.\<close>

definition ledger_negative :: db where
  "ledger_negative =
     snd (admin_items_update as_admin ''nft_1001'' (no_fields\<lparr>f_stars := Some (- 5)\<rparr>) ledger0)"

text \<open>A ledger in which two items carry the same identifier.\<close>

definition ledger_twins :: db where
  "ledger_twins = ledger0\<lparr>items := [nft_1001, nft_1001]\<rparr>"

definition imported_owned :: import_item where
  "imported_owned = \<lparr>i_name = ''Fox'', i_price = Some 2, i_rating = None, i_img = [],
     i_collection = [], i_stars = None, i_level = None, i_ownerId = Some ''u_1001''\<rparr>"

subsection \<open>Ownership, seen from both sides\<close>

text \<open>
  An item whose owner reference is set (truthy) names a user whose owned list holds the
  item's identifier, and every identifier in a user's owned list is the identifier of an
  item whose owner reference is set and names that user.
\<close>

definition owner_consistent :: "db \<Rightarrow> bool" where
  "owner_consistent d \<longleftrightarrow>
     (\<forall>it \<in> set (items d). truthy (it_ownerId it) \<longrightarrow>
        (\<exists>u \<in> set (users d). Some (u_id u) = it_ownerId it \<and> it_id it \<in> set (u_owned u)))
   \<and> (\<forall>u \<in> set (users d). \<forall>x \<in> set (u_owned u).
        \<exists>it \<in> set (items d). it_id it = x \<and> truthy (it_ownerId it)
          \<and> it_ownerId it = Some (u_id u))"

definition distinct_ids :: "db \<Rightarrow> bool" where
  "distinct_ids d \<longleftrightarrow> distinct (map u_id (users d)) \<and> distinct (map it_id (items d))"

text \<open>The routes that hand an item to a user or take it away: buy and gift
  (\<^verbatim>\<open>/api/tx/pay\<close>), admin gift, transfer and burn.\<close>

fun changes_owner :: "request \<Rightarrow> bool" where
  "changes_owner (TxPay itemId mode toUserId) = True"
| "changes_owner (AdminGift toUserId itemId) = True"
| "changes_owner (Transfer itemId toUserId) = True"
| "changes_owner (Burn itemId) = True"
| "changes_owner _ = False"

text \<open>The users after transfer and burn have taken the item at index \<open>i\<close> out of its
  previous owner's list: the first statement of both handlers.\<close>

definition release :: "nat \<Rightarrow> db \<Rightarrow> user list" where
  "release i d =
     (if truthy (it_ownerId (items d ! i)) then
        (case findIndex (\<lambda>u. Some (u_id u) = it_ownerId (items d ! i)) (users d) of
           None \<Rightarrow> users d
         | Some pv \<Rightarrow>
             upd pv (\<lambda>u. u\<lparr>u_owned := filter (\<lambda>x. x \<noteq> it_id (items d ! i)) (u_owned u)\<rparr>)
               (users d))
      else users d)"

section \<open>Properties\<close>

subsection \<open>Lookups and writes through a reference\<close>

lemma or0_id [simp]: "or0 x = x"
  by (simp add: or0_def)

lemma findIndex_Some:
  "findIndex P xs = Some i \<Longrightarrow> i < length xs \<and> P (xs ! i) \<and> (\<forall>j<i. \<not> P (xs ! j))"
proof (induction xs arbitrary: i)
  case Nil
  then show ?case by simp
next
  case (Cons x xs)
  show ?case
  proof (cases "P x")
    case True
    with Cons.prems show ?thesis by simp
  next
    case False
    with Cons.prems obtain i' where i': "findIndex P xs = Some i'" "i = Suc i'"
      by auto
    from Cons.IH[OF i'(1)] False i'(2) show ?thesis
      by (auto simp: nth_Cons split: nat.splits)
  qed
qed

lemma findIndex_None: "findIndex P xs = None \<longleftrightarrow> (\<forall>x\<in>set xs. \<not> P x)"
  by (induction xs) auto

lemma findIndex_append:
  "findIndex P (xs @ ys) =
     (case findIndex P xs of
        Some i \<Rightarrow> Some i
      | None \<Rightarrow> (case findIndex P ys of None \<Rightarrow> None | Some j \<Rightarrow> Some (length xs + j)))"
  by (induction xs) (auto split: option.splits)

lemma findIndex_upd:
  "(\<And>x. P (f x) = P x) \<Longrightarrow> findIndex P (upd i f xs) = findIndex P xs"
proof (induction xs arbitrary: i)
  case Nil
  then show ?case by (simp add: upd_def)
next
  case (Cons x xs)
  have step: "upd (Suc j) f (x # xs) = x # upd j f xs" for j
    by (simp add: upd_def)
  show ?case
  proof (cases i)
    case 0
    then show ?thesis using Cons.prems by (simp add: upd_def)
  next
    case (Suc j)
    then show ?thesis using Cons.IH[of j] Cons.prems by (simp add: step)
  qed
qed

lemma length_upd [simp]: "length (upd i f xs) = length xs"
  by (simp add: upd_def)

lemma nth_upd: "i < length xs \<Longrightarrow> upd i f xs ! j = (if j = i then f (xs ! i) else xs ! j)"
  by (simp add: upd_def)

lemma find_userD:
  assumes "find_user d uid = Some u"
  obtains i where "findIndex (\<lambda>u. u_id u = uid) (users d) = Some i" "i < length (users d)"
    "users d ! i = u" "u_id u = uid"
  using assms findIndex_Some[of "\<lambda>u. u_id u = uid" "users d"]
  by (auto simp: find_user_def)

lemma find_paymentD:
  assumes "find_payment d pid = Some p"
  obtains k where "findIndex (\<lambda>x. p_id x = pid) (or_empty (payments d)) = Some k"
    "or_empty (payments d) ! k = p"
  using assms by (auto simp: find_payment_def)

lemma findIndex_fresh_append:
  "\<forall>x\<in>set xs. \<not> P x \<Longrightarrow> P y \<Longrightarrow> findIndex P (xs @ [y]) = Some (length xs)"
  using findIndex_None[of P xs] by (simp add: findIndex_append)

lemmas obs_defs = balance_of_def status_of_def find_user_def find_item_def find_payment_def

lemmas fixture_defs = ledger0_def u_admin_def alice_def bob_def nft_1000_def nft_1001_def
  as_admin_def as_alice_def as_bob_def env_a_def env_b_def

lemmas run_defs = transact_def adminOnly_def Let_def pushNotify_def or_empty_def upd_def

subsection \<open>Doubles\<close>

declare log2i.simps [simp del]

lemma fl_zero [simp]: "fl 0 = 0"
  by (simp add: fl_def)

lemma js_sub_self [simp]: "js_sub a a = 0"
  by (simp add: js_sub_def)

lemma log2i_bounds:
  "1 \<le> n \<Longrightarrow> 0 \<le> log2i n \<and> 2 ^ nat (log2i n) \<le> n \<and> n < 2 ^ nat (log2i n + 1)"
proof (induction n rule: log2i.induct)
  case (1 n)
  show ?case
  proof (cases "n < 2")
    case True
    with "1.prems" have "n = 1" by simp
    then show ?thesis
      by (subst log2i.simps, subst (2) log2i.simps, subst (3) log2i.simps) simp
  next
    case False
    then have half: "1 \<le> n div 2" by simp
    from "1.IH"[OF False half]
    have IH: "0 \<le> log2i (n div 2)" "2 ^ nat (log2i (n div 2)) \<le> n div 2"
      "n div 2 < 2 ^ nat (log2i (n div 2) + 1)"
      by simp_all
    have l: "log2i n = 1 + log2i (n div 2)"
      using False by (subst log2i.simps) simp
    have n0: "0 \<le> log2i n"
      using l IH(1) by simp
    have n1: "nat (log2i n) = Suc (nat (log2i (n div 2)))"
      using l IH(1) by simp
    have n2: "nat (log2i n + 1) = Suc (Suc (nat (log2i (n div 2))))"
      using l IH(1) by simp
    have n3: "nat (log2i (n div 2) + 1) = Suc (nat (log2i (n div 2)))"
      using IH(1) by simp
    from IH(2) have lo: "2 * 2 ^ nat (log2i (n div 2)) \<le> n"
      by linarith
    from IH(3) have hi: "n < 2 * (2 * 2 ^ nat (log2i (n div 2)))"
      unfolding n3 by simp
    show ?thesis
      unfolding n1 n2 using n0 lo hi by simp
  qed
qed

lemma log2i_one [simp]: "log2i 1 = 0"
  by (subst log2i.simps) simp

lemma round_even_of_int [simp]: "round_even (of_int z) = z"
  by (simp add: round_even_def)

text \<open>A whole number below \<open>2 ^ 53\<close> in magnitude is a double.\<close>

lemma fl_of_int:
  assumes "\<bar>n\<bar> < 2 ^ 53"
  shows "fl (of_int n) = of_int n"
proof (cases "n = 0")
  case True
  then show ?thesis by simp
next
  case False
  define m where "m = \<bar>n\<bar>"
  define k where "k = log2i m"
  from False have m1: "1 \<le> m"
    by (simp add: m_def)
  from log2i_bounds[OF m1] have k: "0 \<le> k" "2 ^ nat k \<le> m" "m < 2 ^ nat (k + 1)"
    by (simp_all add: k_def)
  from k(2) assms have "(2::int) ^ nat k < 2 ^ 53"
    by (simp add: m_def)
  then have "nat k < 53"
    by (rule power_less_imp_less_exp[rotated]) simp
  with k(1) have k52: "k \<le> 52"
    by simp
  have abs: "\<bar>of_int n :: rat\<bar> = of_int m"
    by (simp add: m_def)
  have p2: "pow2 k = of_int (2 ^ nat k)"
    using k(1) by (simp add: pow2_def)
  have ex: "expo (of_int n) = k"
    unfolding expo_def abs using k(2)
    by (simp add: quotient_of_int k_def[symmetric] p2 del: of_int_power)
  define j where "j = nat (52 - k)"
  have e: "max (expo (of_int n) - 52) (- 1074) = k - 52"
    using k(1) by (simp add: ex)
  have pw: "pow2 (k - 52) = 1 / 2 ^ j"
    using k52 by (cases "k = 52") (simp_all add: pow2_def j_def)
  have "of_int n / pow2 (k - 52) = (of_int (n * 2 ^ j) :: rat)"
    by (simp add: pw)
  then have "round_even (of_int n / pow2 (k - 52)) = n * 2 ^ j"
    by (simp del: of_int_mult of_int_power)
  then show ?thesis
    using False by (simp add: fl_def e Let_def pw)
qed

lemma whole_amounts_exact:
  assumes "0 \<le> n" "n \<le> m" "m < 2 ^ 53"
  shows "js_sub (of_int m) (of_int n) = of_int (m - n)
       \<and> js_add (js_sub (of_int m) (of_int n)) (of_int n) = of_int m"
proof -
  have "\<bar>m - n\<bar> < 2 ^ 53" "\<bar>m\<bar> < 2 ^ 53"
    using assms by simp_all
  from fl_of_int[OF this(1)] fl_of_int[OF this(2)] show ?thesis
    by (simp add: js_sub_def js_add_def)
qed

lemma whole_sum_exact:
  assumes "0 \<le> n" "0 \<le> m" "m + n < 2 ^ 53"
  shows "js_add (of_int m) (of_int n) = of_int (m + n)"
proof -
  have "\<bar>m + n\<bar> < 2 ^ 53"
    using assms by simp
  from fl_of_int[OF this] show ?thesis
    by (simp add: js_add_def)
qed

text \<open>\<^verbatim>\<open>0.9 - 0.2\<close> and \<^verbatim>\<open>(0.9 - 0.2) + 0.2\<close>, as the doubles come out.\<close>

lemma doubles_0_9_0_2: "fl (9 / 10) = dbl_0_9" "fl (2 / 10) = dbl_0_2"
  unfolding dbl_0_9_def dbl_0_2_def by code_simp+

lemma hold_0_9_0_2: "js_sub dbl_0_9 dbl_0_2 = 3152519739159347 / 4503599627370496"
  unfolding dbl_0_9_def dbl_0_2_def by code_simp

lemma refund_0_9_0_2:
  "js_add (3152519739159347 / 4503599627370496) dbl_0_2 = 2026619832316723 / 2251799813685248"
  unfolding dbl_0_2_def by code_simp

subsection \<open>Holds and refunds\<close>

lemma withdraw_ok:
  assumes "findIndex (\<lambda>u. u_id u = c_id c) (users d) = Some me"
    and "0 < A" and "A \<le> u_balance (users d ! me)" and "5 \<le> length addr"
  shows "withdraw_request e c (Some A) addr d =
     (Success,
      d\<lparr>users := upd me (\<lambda>u. u\<lparr>u_balance := js_sub (u_balance u) A\<rparr>) (users d),
        payments := Some (or_empty (payments d) @
          [\<lparr>p_id = nanoid e 12 0, p_userId = c_id c, p_kind = ''withdraw'',
            p_amountTon = A, p_usd = toFixed2 (js_mul A TON_USD),
            p_tonAddress = Some addr, p_status = ''pending'', p_ts = now e 0,
            p_adminId = None, p_note = None\<rparr>]),
        history := history d @
          [\<lparr>h_userId = c_id c,
            h_t = ''Withdrawal requested '' @ fmt e A @ '' TON to '' @ addr @ '' (held)'',
            h_ts = now e 1\<rparr>],
        notifications := Some (or_empty (notifications d) @
          [\<lparr>n_id = nanoid e 12 1, n_userId = c_id c, n_type = ''withdraw_requested'',
            n_payload = [(''id'', JStr (nanoid e 12 0)), (''amountTon'', JNum A)],
            n_read = False, n_ts = now e 2\<rparr>])\<rparr>)"
  using assms
  by (auto simp add: withdraw_request_def withdraw_mutator_def transact_def Let_def
      pushNotify_def)

lemma deposit_ok:
  assumes "0 < A"
  shows "deposit_request e c (Some A) d =
     (Success,
      d\<lparr>payments := Some (or_empty (payments d) @
          [\<lparr>p_id = nanoid e 12 0, p_userId = c_id c, p_kind = ''deposit'',
            p_amountTon = A, p_usd = toFixed2 (js_mul A TON_USD),
            p_tonAddress = None, p_status = ''pending'', p_ts = now e 0,
            p_adminId = None, p_note = None\<rparr>]),
        notifications := Some (or_empty (notifications d) @
          [\<lparr>n_id = nanoid e 12 1, n_userId = c_id c, n_type = ''deposit_requested'',
            n_payload = [(''id'', JStr (nanoid e 12 0)), (''amountTon'', JNum A)],
            n_read = False, n_ts = now e 1\<rparr>])\<rparr>)"
  using assms by (auto simp add: deposit_request_def transact_def Let_def pushNotify_def)

lemmas resolve_defs = admin_payments_approve_def admin_payments_reject_def adminOnly_def
  transact_def Let_def pushNotify_def

text \<open>What a withdrawal of \<open>A\<close> from the balance \<open>B\<close> of \<open>me\<close> leaves, and what its reject and
  its approve leave.\<close>

lemma withdrawal_resolved:
  assumes me: "find_user d (c_id c) = Some me"
    and amt: "0 < A" "A \<le> u_balance me"
    and addr: "5 \<le> length addr"
    and fresh: "nanoid e 12 0 \<notin> p_id ` set (or_empty (payments d))" "nanoid e 12 0 \<noteq> []"
    and adm: "c_role a = ''admin''"
  shows "fst (withdraw_request e c (Some A) addr d) = Success
    \<and> balance_of (snd (withdraw_request e c (Some A) addr d)) (c_id c)
        = Some (js_sub (u_balance me) A)
    \<and> status_of (snd (withdraw_request e c (Some A) addr d)) (nanoid e 12 0)
        = Some ''pending''
    \<and> fst (admin_payments_reject e1 a (nanoid e 12 0) note
             (snd (withdraw_request e c (Some A) addr d))) = Success
    \<and> balance_of (snd (admin_payments_reject e1 a (nanoid e 12 0) note
             (snd (withdraw_request e c (Some A) addr d)))) (c_id c)
        = Some (js_add (js_sub (u_balance me) A) A)
    \<and> status_of (snd (admin_payments_reject e1 a (nanoid e 12 0) note
             (snd (withdraw_request e c (Some A) addr d)))) (nanoid e 12 0)
        = Some ''rejected''
    \<and> fst (admin_payments_approve e2 a (nanoid e 12 0)
             (snd (withdraw_request e c (Some A) addr d))) = Success
    \<and> balance_of (snd (admin_payments_approve e2 a (nanoid e 12 0)
             (snd (withdraw_request e c (Some A) addr d)))) (c_id c)
        = Some (js_sub (u_balance me) A)
    \<and> status_of (snd (admin_payments_approve e2 a (nanoid e 12 0)
             (snd (withdraw_request e c (Some A) addr d)))) (nanoid e 12 0)
        = Some ''approved''"
proof -
  from me obtain i where i: "findIndex (\<lambda>u. u_id u = c_id c) (users d) = Some i"
    "i < length (users d)" "users d ! i = me" "u_id me = c_id c"
    by (rule find_userD)
  from fresh(1) have fr: "\<forall>x\<in>set (or_empty (payments d)). \<not> p_id x = nanoid e 12 0"
    by (metis imageI)
  note w = withdraw_ok[OF i(1) amt(1) _ addr, of e, unfolded i(3), OF amt(2)]
  note fi = findIndex_fresh_append[OF fr]
  show ?thesis
    unfolding w using i fresh(2) adm
    by (simp add: obs_defs resolve_defs fi findIndex_upd nth_upd or_empty_def[of "Some _"])
qed

text \<open>For whole numbers the hold and the refund are exact.\<close>

lemma withdrawal_whole:
  assumes me: "find_user d (c_id c) = Some me"
    and amt: "0 < A" "A \<le> u_balance me"
    and addr: "5 \<le> length addr"
    and fresh: "nanoid e 12 0 \<notin> p_id ` set (or_empty (payments d))" "nanoid e 12 0 \<noteq> []"
    and adm: "c_role a = ''admin''"
    and whole: "u_balance me = of_int m" "A = of_int n" "m < 2 ^ 53"
  shows "balance_of (snd (withdraw_request e c (Some A) addr d)) (c_id c)
           = Some (u_balance me - A)
       \<and> balance_of (snd (admin_payments_reject e1 a (nanoid e 12 0) note
             (snd (withdraw_request e c (Some A) addr d)))) (c_id c)
           = Some (u_balance me)"
proof -
  from amt whole(1,2) have "0 \<le> n" "n \<le> m"
    by simp_all
  note ex = whole_amounts_exact[OF this whole(3), unfolded of_int_diff, folded whole(1,2)]
  from withdrawal_resolved[OF me amt addr fresh adm, of e1 "note"]
  have held: "balance_of (snd (withdraw_request e c (Some A) addr d)) (c_id c)
          = Some (js_sub (u_balance me) A)"
    and refunded: "balance_of (snd (admin_payments_reject e1 a (nanoid e 12 0) note
             (snd (withdraw_request e c (Some A) addr d)))) (c_id c)
        = Some (js_add (js_sub (u_balance me) A) A)"
    by blast+
  from held have "balance_of (snd (withdraw_request e c (Some A) addr d)) (c_id c)
          = Some (u_balance me - A)"
    by (simp only: conjunct1[OF ex])
  moreover from refunded
  have "balance_of (snd (admin_payments_reject e1 a (nanoid e 12 0) note
             (snd (withdraw_request e c (Some A) addr d)))) (c_id c)
        = Some (u_balance me)"
    by (simp only: conjunct2[OF ex])
  ultimately show ?thesis
    by (rule conjI)
qed

text \<open>The same for a deposit, whatever the balance.\<close>

lemma deposit_resolved:
  assumes me: "find_user d (c_id c) = Some me"
    and amt: "0 < A"
    and fresh: "nanoid e 12 0 \<notin> p_id ` set (or_empty (payments d))" "nanoid e 12 0 \<noteq> []"
    and adm: "c_role a = ''admin''"
  shows "fst (deposit_request e c (Some A) d) = Success
    \<and> users (snd (deposit_request e c (Some A) d)) = users d
    \<and> status_of (snd (deposit_request e c (Some A) d)) (nanoid e 12 0) = Some ''pending''
    \<and> fst (admin_payments_approve e2 a (nanoid e 12 0)
             (snd (deposit_request e c (Some A) d))) = Success
    \<and> balance_of (snd (admin_payments_approve e2 a (nanoid e 12 0)
             (snd (deposit_request e c (Some A) d)))) (c_id c)
        = Some (js_add (u_balance me) A)
    \<and> status_of (snd (admin_payments_approve e2 a (nanoid e 12 0)
             (snd (deposit_request e c (Some A) d)))) (nanoid e 12 0)
        = Some ''approved''
    \<and> fst (admin_payments_reject e1 a (nanoid e 12 0) note
             (snd (deposit_request e c (Some A) d))) = Success
    \<and> users (snd (admin_payments_reject e1 a (nanoid e 12 0) note
             (snd (deposit_request e c (Some A) d)))) = users d
    \<and> status_of (snd (admin_payments_reject e1 a (nanoid e 12 0) note
             (snd (deposit_request e c (Some A) d)))) (nanoid e 12 0)
        = Some ''rejected''"
proof -
  from me obtain i where i: "findIndex (\<lambda>u. u_id u = c_id c) (users d) = Some i"
    "i < length (users d)" "users d ! i = me" "u_id me = c_id c"
    by (rule find_userD)
  from fresh(1) have fr: "\<forall>x\<in>set (or_empty (payments d)). \<not> p_id x = nanoid e 12 0"
    by (metis imageI)
  note dp = deposit_ok[OF amt, of e c d]
  note fi = findIndex_fresh_append[OF fr]
  show ?thesis
    unfolding dp using i fresh(2) adm
    by (simp add: obs_defs resolve_defs fi findIndex_upd nth_upd or_empty_def[of "Some _"])
qed

lemma deposit_whole:
  assumes me: "find_user d (c_id c) = Some me"
    and amt: "0 < A"
    and fresh: "nanoid e 12 0 \<notin> p_id ` set (or_empty (payments d))" "nanoid e 12 0 \<noteq> []"
    and adm: "c_role a = ''admin''"
    and whole: "u_balance me = of_int m" "A = of_int n" "0 \<le> m" "m + n < 2 ^ 53"
  shows "balance_of (snd (admin_payments_approve e2 a (nanoid e 12 0)
             (snd (deposit_request e c (Some A) d)))) (c_id c)
           = Some (u_balance me + A)"
proof -
  from amt whole(2) have "0 \<le> n"
    by simp
  note ex = whole_sum_exact[OF this whole(3,4), unfolded of_int_add, folded whole(1,2)]
  from deposit_resolved[OF me amt fresh adm, of e2]
  have "balance_of (snd (admin_payments_approve e2 a (nanoid e 12 0)
             (snd (deposit_request e c (Some A) d)))) (c_id c)
        = Some (js_add (u_balance me) A)"
    by blast
  then show ?thesis
    by (simp only: ex)
qed

text \<open>
  Claim C1, as the handlers have it. The lookup of the caller finds the user \<open>me\<close> with
  balance \<open>B\<close>, the amount \<open>A\<close> is positive, the identifier \<^verbatim>\<open>nanoid\<close> hands out is not empty
  and not that of an earlier payment, and the resolver is an administrator.

  A withdrawal of \<open>A \<le> B\<close> to an address of at least five characters succeeds, leaves the
  balance at \<open>B - A\<close> as the subtraction on doubles gives it, and the new payment
  \<^verbatim>\<open>pending\<close>. Its reject adds \<open>A\<close> back, which leaves \<open>(B - A) + A\<close> as the doubles give it,
  and the payment \<^verbatim>\<open>rejected\<close>; its approve leaves the balance where the request put it
  and the payment \<^verbatim>\<open>approved\<close>. When \<open>B\<close> and \<open>A\<close> are whole numbers below \<open>2 ^ 53\<close> the held
  balance is exactly \<open>B - A\<close> and the reject restores exactly \<open>B\<close>.

  A deposit request of any \<open>A > 0\<close>, whatever the balance, succeeds, changes no user and
  creates a \<^verbatim>\<open>pending\<close> payment; its approve leaves the balance \<open>B + A\<close> as the addition on
  doubles gives it (exactly \<open>B + A\<close> for whole numbers whose sum is below \<open>2 ^ 53\<close>), its
  reject changes no user.
\<close>

theorem hold_refund_correct:
  assumes me: "find_user d (c_id c) = Some me"
    and amt: "0 < A"
    and fresh: "nanoid e 12 0 \<notin> p_id ` set (or_empty (payments d))" "nanoid e 12 0 \<noteq> []"
    and adm: "c_role a = ''admin''"
  shows "(A \<le> u_balance me \<and> 5 \<le> length addr \<longrightarrow>
      (fst (withdraw_request e c (Some A) addr d) = Success
    \<and> balance_of (snd (withdraw_request e c (Some A) addr d)) (c_id c)
        = Some (js_sub (u_balance me) A)
    \<and> status_of (snd (withdraw_request e c (Some A) addr d)) (nanoid e 12 0)
        = Some ''pending''
    \<and> fst (admin_payments_reject e1 a (nanoid e 12 0) note
             (snd (withdraw_request e c (Some A) addr d))) = Success
    \<and> balance_of (snd (admin_payments_reject e1 a (nanoid e 12 0) note
             (snd (withdraw_request e c (Some A) addr d)))) (c_id c)
        = Some (js_add (js_sub (u_balance me) A) A)
    \<and> status_of (snd (admin_payments_reject e1 a (nanoid e 12 0) note
             (snd (withdraw_request e c (Some A) addr d)))) (nanoid e 12 0)
        = Some ''rejected''
    \<and> fst (admin_payments_approve e2 a (nanoid e 12 0)
             (snd (withdraw_request e c (Some A) addr d))) = Success
    \<and> balance_of (snd (admin_payments_approve e2 a (nanoid e 12 0)
             (snd (withdraw_request e c (Some A) addr d)))) (c_id c)
        = Some (js_sub (u_balance me) A)
    \<and> status_of (snd (admin_payments_approve e2 a (nanoid e 12 0)
             (snd (withdraw_request e c (Some A) addr d)))) (nanoid e 12 0)
        = Some ''approved'')
    \<and> (\<forall>m n. u_balance me = of_int m \<and> A = of_int n \<and> m < 2 ^ 53 \<longrightarrow>
          balance_of (snd (withdraw_request e c (Some A) addr d)) (c_id c)
            = Some (u_balance me - A)
        \<and> balance_of (snd (admin_payments_reject e1 a (nanoid e 12 0) note
             (snd (withdraw_request e c (Some A) addr d)))) (c_id c)
            = Some (u_balance me)))
    \<and> (fst (deposit_request e c (Some A) d) = Success
    \<and> users (snd (deposit_request e c (Some A) d)) = users d
    \<and> status_of (snd (deposit_request e c (Some A) d)) (nanoid e 12 0) = Some ''pending''
    \<and> fst (admin_payments_approve e2 a (nanoid e 12 0)
             (snd (deposit_request e c (Some A) d))) = Success
    \<and> balance_of (snd (admin_payments_approve e2 a (nanoid e 12 0)
             (snd (deposit_request e c (Some A) d)))) (c_id c)
        = Some (js_add (u_balance me) A)
    \<and> status_of (snd (admin_payments_approve e2 a (nanoid e 12 0)
             (snd (deposit_request e c (Some A) d)))) (nanoid e 12 0)
        = Some ''approved''
    \<and> fst (admin_payments_reject e1 a (nanoid e 12 0) note
             (snd (deposit_request e c (Some A) d))) = Success
    \<and> users (snd (admin_payments_reject e1 a (nanoid e 12 0) note
             (snd (deposit_request e c (Some A) d)))) = users d
    \<and> status_of (snd (admin_payments_reject e1 a (nanoid e 12 0) note
             (snd (deposit_request e c (Some A) d)))) (nanoid e 12 0)
        = Some ''rejected'')
    \<and> (\<forall>m n. u_balance me = of_int m \<and> A = of_int n \<and> 0 \<le> m \<and> m + n < 2 ^ 53 \<longrightarrow>
          balance_of (snd (admin_payments_approve e2 a (nanoid e 12 0)
             (snd (deposit_request e c (Some A) d)))) (c_id c)
            = Some (u_balance me + A))"
    (is "(?H \<longrightarrow> ?W \<and> ?Wwhole) \<and> ?D \<and> ?Dwhole")
proof (rule conjI[OF impI[OF conjI] conjI])
  assume h: ?H
  then have h1: "A \<le> u_balance me" and h2: "5 \<le> length addr"
    by simp_all
  show ?W
    by (rule withdrawal_resolved[OF me amt h1 h2 fresh adm])
  show ?Wwhole
    by (intro allI impI, elim conjE) (rule withdrawal_whole[OF me amt h1 h2 fresh adm])
next
  show ?D
    by (rule deposit_resolved[OF me amt fresh adm])
next
  show ?Dwhole
    by (intro allI impI, elim conjE) (rule deposit_whole[OF me amt fresh adm])
qed

theorem hold_refund_correct_witness:
  "find_user ledger0 (c_id as_alice) = Some alice
   \<and> (0::num) < 10 \<and> 10 \<le> u_balance alice \<and> 5 \<le> length ''EQ0123456789''
   \<and> u_balance alice = of_int 10 \<and> (10::int) < 2 ^ 53
   \<and> balance_of (snd (withdraw_request env_a as_alice (Some 10) ''EQ0123456789'' ledger0))
        ''u_1001'' = Some 0
   \<and> balance_of (snd (admin_payments_reject env_b as_admin ''aaaaaaaaaaa0'' ''no''
        (snd (withdraw_request env_a as_alice (Some 10) ''EQ0123456789'' ledger0))))
        ''u_1001'' = Some 10
   \<and> find_user ledger0 (c_id as_bob) = Some bob
   \<and> u_balance bob = of_int 5 \<and> (0::int) \<le> 5 \<and> (5::int) + 10 < 2 ^ 53
   \<and> users (snd (deposit_request env_a as_bob (Some 10) ledger0)) = users ledger0
   \<and> balance_of (snd (admin_payments_approve env_b as_admin ''aaaaaaaaaaa0''
        (snd (deposit_request env_a as_bob (Some 10) ledger0)))) ''u_1002'' = Some 15"
proof -
  have me: "find_user ledger0 (c_id as_alice) = Some alice"
    and bb: "find_user ledger0 (c_id as_bob) = Some bob"
    by (simp_all add: find_user_def fixture_defs)
  have amt: "(0::num) < 10" and hold: "10 \<le> u_balance alice \<and> 5 \<le> length ''EQ0123456789''"
    by (simp_all add: alice_def)
  have fresh: "nanoid env_a 12 0 \<notin> p_id ` set (or_empty (payments ledger0))"
    "nanoid env_a 12 0 \<noteq> []"
    by (simp_all add: fixture_defs or_empty_def)
  have adm: "c_role as_admin = ''admin''"
    by (simp add: as_admin_def)
  have ids: "nanoid env_a 12 0 = ''aaaaaaaaaaa0''" "c_id as_alice = ''u_1001''"
    "c_id as_bob = ''u_1002''" "u_balance alice = 10" "u_balance bob = 5"
    by (simp_all add: fixture_defs)
  have whole_a: "u_balance alice = of_int 10 \<and> (10::num) = of_int 10 \<and> (10::int) < 2 ^ 53"
    and whole_b: "u_balance bob = of_int 5 \<and> (10::num) = of_int 10 \<and> (0::int) \<le> 5
      \<and> (5::int) + 10 < 2 ^ 53"
    by (simp_all add: ids)
  note wd = hold_refund_correct[OF me amt fresh adm,
      of "''EQ0123456789''" env_b "''no''" env_b, THEN conjunct1, THEN mp, OF hold,
      THEN conjunct2, THEN spec[of _ 10], THEN spec[of _ 10], THEN mp, OF whole_a]
  note dp = hold_refund_correct[OF bb amt fresh adm,
      of "''EQ0123456789''" env_b "''no''" env_b, THEN conjunct2]
  note dpw = dp[THEN conjunct2, THEN spec[of _ 5], THEN spec[of _ 10], THEN mp, OF whole_b]
  from wd dp[THEN conjunct1] dpw me bb
  show ?thesis
    unfolding ids by simp
qed

text \<open>
  Alice holds \<^verbatim>\<open>0.9\<close> TON and asks to withdraw \<^verbatim>\<open>0.2\<close>; the request is rejected. The hold
  leaves \<^verbatim>\<open>0.7000000000000001\<close> and the refund \<^verbatim>\<open>0.8999999999999999\<close>, which is not the
  balance she had.
\<close>

theorem refund_misses_balance:
  "fl (9 / 10) = dbl_0_9 \<and> fl (2 / 10) = dbl_0_2
   \<and> balance_of ledger_tenths ''u_1001'' = Some dbl_0_9
   \<and> 0 < dbl_0_2 \<and> dbl_0_2 \<le> dbl_0_9
   \<and> fst (withdraw_request env_a as_alice (Some dbl_0_2) ''EQ0123456789'' ledger_tenths)
       = Success
   \<and> fst (admin_payments_reject env_b as_admin ''aaaaaaaaaaa0'' []
        (snd (withdraw_request env_a as_alice (Some dbl_0_2) ''EQ0123456789'' ledger_tenths)))
       = Success
   \<and> balance_of (snd (admin_payments_reject env_b as_admin ''aaaaaaaaaaa0'' []
        (snd (withdraw_request env_a as_alice (Some dbl_0_2) ''EQ0123456789'' ledger_tenths))))
        ''u_1001'' = Some (2026619832316723 / 2251799813685248)
   \<and> balance_of (snd (admin_payments_reject env_b as_admin ''aaaaaaaaaaa0'' []
        (snd (withdraw_request env_a as_alice (Some dbl_0_2) ''EQ0123456789'' ledger_tenths))))
        ''u_1001'' \<noteq> Some dbl_0_9"
proof -
  have me: "find_user ledger_tenths (c_id as_alice) = Some (alice\<lparr>u_balance := dbl_0_9\<rparr>)"
    by (simp add: find_user_def ledger_tenths_def fixture_defs)
  have amt: "0 < dbl_0_2" "dbl_0_2 \<le> u_balance (alice\<lparr>u_balance := dbl_0_9\<rparr>)"
    by (simp_all add: dbl_0_2_def dbl_0_9_def)
  have addr: "5 \<le> length ''EQ0123456789''"
    by simp
  have fresh: "nanoid env_a 12 0 \<notin> p_id ` set (or_empty (payments ledger_tenths))"
    "nanoid env_a 12 0 \<noteq> []"
    by (simp_all add: ledger_tenths_def fixture_defs or_empty_def)
  have adm: "c_role as_admin = ''admin''"
    by (simp add: as_admin_def)
  have ids: "nanoid env_a 12 0 = ''aaaaaaaaaaa0''" "c_id as_alice = ''u_1001''"
    by (simp_all add: fixture_defs)
  have bal: "balance_of ledger_tenths ''u_1001'' = Some dbl_0_9"
    using me by (simp add: balance_of_def ids)
  have off: "(2026619832316723 / 2251799813685248 :: num) \<noteq> dbl_0_9"
    by (simp add: dbl_0_9_def)
  from withdrawal_resolved[OF me amt addr fresh adm, of env_b "[]" env_b] bal amt off
  have "balance_of ledger_tenths ''u_1001'' = Some dbl_0_9
   \<and> 0 < dbl_0_2 \<and> dbl_0_2 \<le> dbl_0_9
   \<and> fst (withdraw_request env_a as_alice (Some dbl_0_2) ''EQ0123456789'' ledger_tenths)
       = Success
   \<and> fst (admin_payments_reject env_b as_admin ''aaaaaaaaaaa0'' []
        (snd (withdraw_request env_a as_alice (Some dbl_0_2) ''EQ0123456789'' ledger_tenths)))
       = Success
   \<and> balance_of (snd (admin_payments_reject env_b as_admin ''aaaaaaaaaaa0'' []
        (snd (withdraw_request env_a as_alice (Some dbl_0_2) ''EQ0123456789'' ledger_tenths))))
        ''u_1001'' = Some (2026619832316723 / 2251799813685248)
   \<and> balance_of (snd (admin_payments_reject env_b as_admin ''aaaaaaaaaaa0'' []
        (snd (withdraw_request env_a as_alice (Some dbl_0_2) ''EQ0123456789'' ledger_tenths))))
        ''u_1001'' \<noteq> Some dbl_0_9"
    unfolding ids by (simp add: hold_0_9_0_2 refund_0_9_0_2)
  with doubles_0_9_0_2 show ?thesis
    by blast
qed

subsection \<open>Resolved payments stay resolved\<close>

lemma resolved_stays:
  assumes p: "find_payment d pid = Some p" and st: "p_status p \<noteq> ''pending''"
    and pid: "pid \<noteq> []" and adm: "c_role c = ''admin''" and r: "resolves pid r"
  shows "route e c r d = (Reject 400 ''Already processed'', d)"
proof -
  from p obtain k where k: "findIndex (\<lambda>x. p_id x = pid) (or_empty (payments d)) = Some k"
    "or_empty (payments d) ! k = p"
    by (rule find_paymentD)
  show ?thesis
  proof (cases r)
    case (PaymentsApprove x)
    with r have "x = pid" by simp
    with PaymentsApprove k st pid adm show ?thesis
      by (simp add: admin_payments_approve_def adminOnly_def transact_def)
  next
    case (PaymentsReject x nt)
    with r have "x = pid" by simp
    with PaymentsReject k st pid adm show ?thesis
      by (simp add: admin_payments_reject_def adminOnly_def transact_def)
  qed (use r in simp_all)
qed

text \<open>
  Claim C3. Let \<open>p\<close> be the payment that the lookup of a non-empty identifier \<open>pid\<close> finds, with
  status \<^verbatim>\<open>approved\<close> or \<^verbatim>\<open>rejected\<close>. Then every list of approve and reject requests
  for \<open>pid\<close> sent by administrators, served one after the other, is answered request by
  request with status 400 and the error \<^verbatim>\<open>Already processed\<close>, and the snapshot after the
  whole list is the snapshot before it: the payment, every balance and everything else.
\<close>

theorem terminal_payment_stays:
  assumes "find_payment d pid = Some p"
    and "p_status p = ''approved'' \<or> p_status p = ''rejected''"
    and "pid \<noteq> []"
    and "\<forall>(e, c, r) \<in> set rs. c_role c = ''admin'' \<and> resolves pid r"
  shows "serve rs d = (replicate (length rs) (Reject 400 ''Already processed''), d)"
  using assms(4)
proof (induction rs)
  case Nil
  then show ?case by simp
next
  case (Cons x rs)
  obtain e c r where x: "x = (e, c, r)"
    by (cases x)
  from assms(2) have st: "p_status p \<noteq> ''pending''"
    by auto
  from Cons.prems x have "c_role c = ''admin''" "resolves pid r"
    by auto
  then have "route e c r d = (Reject 400 ''Already processed'', d)"
    using resolved_stays[OF assms(1) st assms(3)] by blast
  moreover from Cons
  have "serve rs d = (replicate (length rs) (Reject 400 ''Already processed''), d)"
    by simp
  ultimately show ?case
    using x by simp
qed

theorem terminal_payment_stays_witness:
  "find_payment ledger_resolved ''aaaaaaaaaaa0'' = Some pay_rejected
   \<and> p_status pay_rejected = ''rejected''
   \<and> serve [(env_b, as_admin, PaymentsApprove ''aaaaaaaaaaa0''),
             (env_b, as_admin, PaymentsReject ''aaaaaaaaaaa0'' ''again''),
             (env_a, as_admin, PaymentsApprove ''aaaaaaaaaaa0'')] ledger_resolved
       = ([Reject 400 ''Already processed'', Reject 400 ''Already processed'',
           Reject 400 ''Already processed''], ledger_resolved)"
proof -
  have p: "find_payment ledger_resolved ''aaaaaaaaaaa0'' = Some pay_rejected"
    by (simp add: find_payment_def ledger_resolved_def or_empty_def pay_rejected_def)
  have st: "p_status pay_rejected = ''approved'' \<or> p_status pay_rejected = ''rejected''"
    by (simp add: pay_rejected_def)
  have pid: "''aaaaaaaaaaa0'' \<noteq> []"
    by simp
  have rs: "\<forall>(e, c, r) \<in> set [(env_b, as_admin, PaymentsApprove ''aaaaaaaaaaa0''),
             (env_b, as_admin, PaymentsReject ''aaaaaaaaaaa0'' ''again''),
             (env_a, as_admin, PaymentsApprove ''aaaaaaaaaaa0'')].
          c_role c = ''admin'' \<and> resolves ''aaaaaaaaaaa0'' r"
    by (simp add: as_admin_def)
  from terminal_payment_stays[OF p st pid rs] p show ?thesis
    by (simp add: pay_rejected_def)
qed

subsection \<open>Rejections\<close>

text \<open>Route by route: an answer other than success comes with the snapshot as it was.\<close>

lemmas wrap_defs = transact_def adminOnly_def Let_def

lemma rej_notifications_read:
  "fst (notifications_read c ids d) \<noteq> Success \<Longrightarrow> snd (notifications_read c ids d) = d"
  by (simp add: notifications_read_def wrap_defs)

lemma rej_deposit:
  "fst (deposit_request e c a d) \<noteq> Success \<Longrightarrow> snd (deposit_request e c a d) = d"
  by (auto simp: deposit_request_def wrap_defs split: option.splits if_splits)

lemma rej_withdraw:
  "fst (withdraw_request e c a t d) \<noteq> Success \<Longrightarrow> snd (withdraw_request e c a t d) = d"
  by (auto simp: withdraw_request_def withdraw_mutator_def wrap_defs
      split: option.splits if_splits)

lemma rej_approve:
  "fst (admin_payments_approve e c p d) \<noteq> Success \<Longrightarrow> snd (admin_payments_approve e c p d) = d"
  by (auto simp: admin_payments_approve_def wrap_defs split: option.splits if_splits)

lemma rej_reject:
  "fst (admin_payments_reject e c p n d) \<noteq> Success
     \<Longrightarrow> snd (admin_payments_reject e c p n d) = d"
  by (auto simp: admin_payments_reject_def wrap_defs split: option.splits if_splits)

lemma rej_pay: "fst (tx_pay e c i m t d) \<noteq> Success \<Longrightarrow> snd (tx_pay e c i m t d) = d"
  by (auto simp: tx_pay_def wrap_defs split: option.splits if_splits)

lemma rej_upgrade: "fst (nft_upgrade e c i d) \<noteq> Success \<Longrightarrow> snd (nft_upgrade e c i d) = d"
  by (auto simp: nft_upgrade_def wrap_defs split: option.splits if_splits)

lemma rej_gift: "fst (admin_gift e c t i d) \<noteq> Success \<Longrightarrow> snd (admin_gift e c t i d) = d"
  by (auto simp: admin_gift_def wrap_defs split: option.splits if_splits)

lemma rej_balance:
  "fst (admin_users_balance e c u dl d) \<noteq> Success \<Longrightarrow> snd (admin_users_balance e c u dl d) = d"
  by (auto simp: admin_users_balance_def wrap_defs split: option.splits if_splits)

lemma rej_ban: "fst (admin_users_ban c u b d) \<noteq> Success \<Longrightarrow> snd (admin_users_ban c u b d) = d"
  by (auto simp: admin_users_ban_def wrap_defs split: option.splits if_splits)

lemma rej_create:
  "fst (admin_items_create e c n p i cl r d) \<noteq> Success
     \<Longrightarrow> snd (admin_items_create e c n p i cl r d) = d"
  by (auto simp: admin_items_create_def wrap_defs split: option.splits if_splits)

lemma rej_update:
  "fst (admin_items_update c i f d) \<noteq> Success \<Longrightarrow> snd (admin_items_update c i f d) = d"
  by (auto simp: admin_items_update_def wrap_defs split: option.splits if_splits)

lemma rej_delete:
  "fst (admin_items_delete c i d) \<noteq> Success \<Longrightarrow> snd (admin_items_delete c i d) = d"
  by (auto simp: admin_items_delete_def wrap_defs split: option.splits if_splits)

lemma rej_clear: "fst (admin_items_clear c d) \<noteq> Success \<Longrightarrow> snd (admin_items_clear c d) = d"
  by (auto simp: admin_items_clear_def wrap_defs split: option.splits if_splits)

lemma rej_import:
  "fst (admin_items_bulkImport e c xs d) \<noteq> Success
     \<Longrightarrow> snd (admin_items_bulkImport e c xs d) = d"
  by (auto simp: admin_items_bulkImport_def wrap_defs split: option.splits if_splits)

lemma rej_transfer:
  "fst (admin_transfer e c i t d) \<noteq> Success \<Longrightarrow> snd (admin_transfer e c i t d) = d"
  by (auto simp: admin_transfer_def wrap_defs split: option.splits if_splits)

lemma rej_burn: "fst (admin_burn e c i d) \<noteq> Success \<Longrightarrow> snd (admin_burn e c i d) = d"
  by (auto simp: admin_burn_def wrap_defs split: option.splits if_splits)

text \<open>
  Claim C2. Whatever the route, the caller, the body and the snapshot: when the answer is
  not a success (an error of status 400, 403 or 404, or an uncaught exception), the
  snapshot that \<^verbatim>\<open>transact\<close> leaves behind is the snapshot it loaded: users, items,
  payments, history and notifications are all as before. The snapshot is the parsed
  document, and the requests are served one at a time.
\<close>

theorem rejection_changes_nothing:
  "fst (route e c r d) \<noteq> Success \<Longrightarrow> snd (route e c r d) = d"
  by (cases r)
    (simp_all add: rej_notifications_read rej_deposit rej_withdraw rej_approve rej_reject
      rej_pay rej_upgrade rej_gift rej_balance rej_ban rej_create rej_update rej_delete
      rej_clear rej_import rej_transfer rej_burn)

theorem rejection_changes_nothing_witness:
  "route env_a as_alice (TxPay ''nft_1001'' ''buy'' []) ledger0
     = (Reject 400 ''Already sold'', ledger0)
   \<and> route env_a as_alice (WithdrawRequest (Some 11) ''EQ0123456789'') ledger0
     = (Reject 400 ''Insufficient balance'', ledger0)
   \<and> route env_a as_bob (Burn ''nft_1001'') ledger0 = (Reject 403 ''Admin only'', ledger0)"
proof -
  have 1: "fst (route env_a as_alice (TxPay ''nft_1001'' ''buy'' []) ledger0)
             = Reject 400 ''Already sold''"
    by (simp add: tx_pay_def run_defs fixture_defs)
  have 2: "fst (route env_a as_alice (WithdrawRequest (Some 11) ''EQ0123456789'') ledger0)
             = Reject 400 ''Insufficient balance''"
    by (simp add: withdraw_request_def withdraw_mutator_def run_defs fixture_defs)
  have 3: "fst (route env_a as_bob (Burn ''nft_1001'') ledger0) = Reject 403 ''Admin only''"
    by (simp add: admin_burn_def run_defs fixture_defs)
  from 1 have "snd (route env_a as_alice (TxPay ''nft_1001'' ''buy'' []) ledger0) = ledger0"
    by (intro rejection_changes_nothing) simp
  moreover from 2
  have "snd (route env_a as_alice (WithdrawRequest (Some 11) ''EQ0123456789'') ledger0)
          = ledger0"
    by (intro rejection_changes_nothing) simp
  moreover from 3 have "snd (route env_a as_bob (Burn ''nft_1001'') ledger0) = ledger0"
    by (intro rejection_changes_nothing) simp
  ultimately show ?thesis
    using 1 2 3 by (simp add: prod_eq_iff)
qed

subsection \<open>Buying\<close>

lemma find_itemD:
  assumes "find_item d x = Some it"
  obtains i where "findIndex (\<lambda>y. it_id y = x) (items d) = Some i" "i < length (items d)"
    "items d ! i = it" "it_id it = x"
  using assms findIndex_Some[of "\<lambda>y. it_id y = x" "items d"]
  by (auto simp: find_item_def)



subsection \<open>The admin gift\<close>

lemma upd_upd: "upd j f (upd j g xs) = upd j (\<lambda>x. f (g x)) xs"
  by (cases "j < length xs") (simp_all add: upd_def list_update_beyond)

lemma nth_upd_any: "upd j f xs ! m = (if m = j \<and> j < length xs then f (xs ! j) else xs ! m)"
  by (cases "j < length xs") (simp_all add: upd_def list_update_beyond)


lemma admin_gift_ok:
  assumes adm: "c_role c = ''admin''"
    and args: "toUserId \<noteq> []" "itemId \<noteq> []"
    and j: "findIndex (\<lambda>u. u_id u = toUserId) (users d) = Some j"
    and i: "findIndex (\<lambda>y. it_id y = itemId) (items d) = Some i"
    and free: "\<not> truthy (it_ownerId (items d ! i))"
    and bal: "it_price (items d ! i) \<le> u_balance (users d ! j)"
  shows "admin_gift e c toUserId itemId d =
     (Success,
      d\<lparr>users := upd j (\<lambda>u. u\<lparr>u_balance := u_balance u - it_price (items d ! i),
                               u_owned := u_owned u @ [itemId],
                               u_gifts := u_gifts u + 1\<rparr>) (users d),
        items := upd i (\<lambda>x. x\<lparr>it_ownerId := Some toUserId\<rparr>) (items d),
        history := history d @
          [\<lparr>h_userId = toUserId,
            h_t = ''Admin issued gift '' @ itemId @ '' (charged ''
                  @ fmt e (it_price (items d ! i)) @ '' TON)'',
            h_ts = now e 0\<rparr>]\<rparr>)"
proof -
  from findIndex_Some[OF j] have jj: "j < length (users d)" "u_id (users d ! j) = toUserId"
    by auto
  from findIndex_Some[OF i] have ii: "i < length (items d)" "it_id (items d ! i) = itemId"
    by auto
  show ?thesis
    using adm args j i free bal jj ii
    by (simp add: admin_gift_def transact_def adminOnly_def Let_def nth_upd upd_upd)
qed




subsection \<open>Upgrades\<close>

lemma upgrade_ok:
  assumes "itemId \<noteq> []" "find_item d itemId = Some it" "it_ownerId it = Some (c_id c)"
  obtains d' where "nft_upgrade e c itemId d = (Success, d')"
    "find_item d' itemId
       = Some (it\<lparr>it_stars := max 0 (it_stars it - 1), it_level := it_level it + 1\<rparr>)"
proof -
  from assms(2) obtain i where i: "findIndex (\<lambda>y. it_id y = itemId) (items d) = Some i"
    "i < length (items d)" "items d ! i = it" "it_id it = itemId"
    by (rule find_itemD)
  have "fst (nft_upgrade e c itemId d) = Success
      \<and> find_item (snd (nft_upgrade e c itemId d)) itemId
         = Some (it\<lparr>it_stars := max 0 (it_stars it - 1), it_level := it_level it + 1\<rparr>)"
    using i assms(1,3)
    by (simp add: nft_upgrade_def transact_def Let_def obs_defs findIndex_upd nth_upd)
  then show thesis
    using that[of "snd (nft_upgrade e c itemId d)"] by (metis prod.collapse)
qed

lemma upgrade_not_owner:
  assumes "itemId \<noteq> []" "find_item d itemId = Some it" "it_ownerId it \<noteq> Some (c_id c)"
  shows "nft_upgrade e c itemId d = (Reject 403 ''Not owner'', d)"
proof -
  from assms(2) obtain i where i: "findIndex (\<lambda>y. it_id y = itemId) (items d) = Some i"
    "i < length (items d)" "items d ! i = it" "it_id it = itemId"
    by (rule find_itemD)
  show ?thesis
    using i assms(1,3) by (simp add: nft_upgrade_def transact_def Let_def)
qed

lemma max0_iter: "max 0 (max 0 (s - 1) - of_nat n) = max (0::rat) (s - (1 + of_nat n))"
  by (auto simp: max_def)

lemma upgrades_ok:
  assumes "itemId \<noteq> []" "find_item d itemId = Some it" "it_ownerId it = Some (c_id c)"
  shows "fst (serve (map (\<lambda>e. (e, c, NftUpgrade itemId)) es) d) = replicate (length es) Success
       \<and> find_item (snd (serve (map (\<lambda>e. (e, c, NftUpgrade itemId)) es) d)) itemId
           = Some (it\<lparr>it_stars := (if es = [] then it_stars it
                                    else max 0 (it_stars it - of_nat (length es))),
                      it_level := it_level it + of_nat (length es)\<rparr>)"
  using assms(2,3)
proof (induction es arbitrary: d it)
  case Nil
  then show ?case by simp
next
  case (Cons e es)
  let ?it1 = "it\<lparr>it_stars := max 0 (it_stars it - 1), it_level := it_level it + 1\<rparr>"
  from upgrade_ok[OF assms(1) Cons.prems, of e]
  obtain d1 where 1: "nft_upgrade e c itemId d = (Success, d1)" "find_item d1 itemId = Some ?it1"
    by metis
  have own: "it_ownerId ?it1 = Some (c_id c)"
    using Cons.prems by simp
  note IH = Cons.IH[OF 1(2) own]
  show ?case
    using IH 1(1) by (cases "es = []") (simp_all add: split_beta max0_iter add.assoc)
qed

text \<open>
  Claim C8, as the handler has it. The lookup of a non-empty \<open>itemId\<close> finds the item \<open>it\<close>.
  If the caller is its owner, every one of any number of upgrades in a row succeeds, and
  the item found afterwards has the level raised by the number of upgrades and, after at
  least one upgrade, the stars \<open>max 0 (stars - n)\<close> for \<open>n\<close> upgrades, so \<open>max 0 (stars - 1)\<close>
  after one: never below zero, and not above the stars it started with provided those
  were not negative. If the caller is not its owner, the upgrade is answered with status
  403, \<^verbatim>\<open>Not owner\<close>, and the snapshot is unchanged.
\<close>

theorem upgrade_progression:
  assumes "itemId \<noteq> []" "find_item d itemId = Some it"
  shows "(it_ownerId it = Some (c_id c) \<longrightarrow>
            fst (serve (map (\<lambda>e. (e, c, NftUpgrade itemId)) es) d)
              = replicate (length es) Success
          \<and> (\<exists>it'. find_item (snd (serve (map (\<lambda>e. (e, c, NftUpgrade itemId)) es) d)) itemId
                       = Some it'
                \<and> it_stars it' = (if es = [] then it_stars it
                                   else max 0 (it_stars it - of_nat (length es)))
                \<and> it_level it' = it_level it + of_nat (length es)
                \<and> (es \<noteq> [] \<longrightarrow> 0 \<le> it_stars it')
                \<and> (0 \<le> it_stars it \<longrightarrow> it_stars it' \<le> it_stars it)
                \<and> it_level it \<le> it_level it'))
       \<and> (it_ownerId it \<noteq> Some (c_id c) \<longrightarrow>
            nft_upgrade e c itemId d = (Reject 403 ''Not owner'', d))"
proof (intro conjI impI)
  assume own: "it_ownerId it = Some (c_id c)"
  from upgrades_ok[OF assms own, of es]
  show "fst (serve (map (\<lambda>e. (e, c, NftUpgrade itemId)) es) d) = replicate (length es) Success"
    by simp
  let ?it' = "it\<lparr>it_stars := (if es = [] then it_stars it
                                else max 0 (it_stars it - of_nat (length es))),
                  it_level := it_level it + of_nat (length es)\<rparr>"
  from upgrades_ok[OF assms own, of es]
  have "find_item (snd (serve (map (\<lambda>e. (e, c, NftUpgrade itemId)) es) d)) itemId = Some ?it'"
    by simp
  moreover have "(es \<noteq> [] \<longrightarrow> 0 \<le> it_stars ?it')" "(0 \<le> it_stars it \<longrightarrow> it_stars ?it' \<le> it_stars it)"
    "it_level it \<le> it_level ?it'"
    by (auto simp: max_def)
  ultimately show "\<exists>it'. find_item (snd (serve (map (\<lambda>e. (e, c, NftUpgrade itemId)) es) d)) itemId
                       = Some it'
                \<and> it_stars it' = (if es = [] then it_stars it
                                   else max 0 (it_stars it - of_nat (length es)))
                \<and> it_level it' = it_level it + of_nat (length es)
                \<and> (es \<noteq> [] \<longrightarrow> 0 \<le> it_stars it')
                \<and> (0 \<le> it_stars it \<longrightarrow> it_stars it' \<le> it_stars it)
                \<and> it_level it \<le> it_level it'"
    by (intro exI[of _ ?it']) simp
next
  assume "it_ownerId it \<noteq> Some (c_id c)"
  from upgrade_not_owner[OF assms this]
  show "nft_upgrade e c itemId d = (Reject 403 ''Not owner'', d)" .
qed

theorem upgrade_progression_witness:
  "find_item ledger0 ''nft_1001'' = Some nft_1001
   \<and> fst (serve (map (\<lambda>e. (e, as_bob, NftUpgrade ''nft_1001'')) [env_a, env_b, env_a, env_b])
        ledger0) = [Success, Success, Success, Success]
   \<and> map_option it_stars (find_item
        (snd (serve (map (\<lambda>e. (e, as_bob, NftUpgrade ''nft_1001'')) [env_a, env_b, env_a, env_b])
           ledger0)) ''nft_1001'') = Some 0
   \<and> map_option it_level (find_item
        (snd (serve (map (\<lambda>e. (e, as_bob, NftUpgrade ''nft_1001'')) [env_a, env_b, env_a, env_b])
           ledger0)) ''nft_1001'') = Some 4
   \<and> nft_upgrade env_a as_alice ''nft_1001'' ledger0 = (Reject 403 ''Not owner'', ledger0)"
proof -
  have item: "''nft_1001'' \<noteq> []" "find_item ledger0 ''nft_1001'' = Some nft_1001"
    by (simp_all add: find_item_def fixture_defs)
  have own: "it_ownerId nft_1001 = Some (c_id as_bob)" "it_ownerId nft_1001 \<noteq> Some (c_id as_alice)"
    and vals: "it_stars nft_1001 = 3" "it_level nft_1001 = 0"
    by (simp_all add: fixture_defs)
  from upgrade_progression[OF item, of as_bob "[env_a, env_b, env_a, env_b]"]
    upgrade_progression[OF item, of as_alice "[]" env_a] own item(2)
  show ?thesis
    by (auto simp: vals)
qed

text \<open>An item that carries negative stars gains stars by its upgrade.\<close>

theorem upgrade_raises_negative_stars:
  "map_option it_ownerId (find_item ledger_negative ''nft_1001'') = Some (Some (c_id as_bob))
   \<and> map_option it_stars (find_item ledger_negative ''nft_1001'') = Some (- 5)
   \<and> fst (nft_upgrade env_a as_bob ''nft_1001'' ledger_negative) = Success
   \<and> map_option it_stars
        (find_item (snd (nft_upgrade env_a as_bob ''nft_1001'' ledger_negative)) ''nft_1001'')
       = Some 0"
  by (simp add: find_item_def nft_upgrade_def admin_items_update_def assign_fields_def
      assign_def run_defs fixture_defs ledger_negative_def no_fields_def)

subsection \<open>Ownership is kept consistent\<close>

lemma ball_nth: "(\<forall>x\<in>set xs. P x) = (\<forall>i<length xs. P (xs ! i))"
  by (simp add: all_set_conv_all_nth)

lemma bex_nth: "(\<exists>x\<in>set xs. P x) = (\<exists>i<length xs. P (xs ! i))"
  by (metis in_set_conv_nth)

lemma owner_consistent_nth:
  "owner_consistent d \<longleftrightarrow>
     (\<forall>k<length (items d). truthy (it_ownerId (items d ! k)) \<longrightarrow>
        (\<exists>m<length (users d). Some (u_id (users d ! m)) = it_ownerId (items d ! k)
           \<and> it_id (items d ! k) \<in> set (u_owned (users d ! m))))
   \<and> (\<forall>m<length (users d). \<forall>x \<in> set (u_owned (users d ! m)).
        \<exists>k<length (items d). it_id (items d ! k) = x \<and> truthy (it_ownerId (items d ! k))
          \<and> it_ownerId (items d ! k) = Some (u_id (users d ! m)))"
  unfolding owner_consistent_def
  by (simp only: ball_nth[of "items d"] ball_nth[of "users d"] bex_nth[of "items d"]
      bex_nth[of "users d"])

lemma acquire_preserves:
  assumes inv: "owner_consistent d"
    and i: "i < length (items d)" "\<not> truthy (it_ownerId (items d ! i))"
    and r: "r < length (users d)" "u_id (users d ! r) \<noteq> []"
    and its: "items d' = upd i (\<lambda>x. x\<lparr>it_ownerId := Some (u_id (users d ! r))\<rparr>) (items d)"
    and len: "length (users d') = length (users d)"
    and ids: "\<And>m. m < length (users d) \<Longrightarrow> u_id (users d' ! m) = u_id (users d ! m)"
    and keep: "\<And>m. m < length (users d) \<Longrightarrow>
                 set (u_owned (users d ! m)) \<subseteq> set (u_owned (users d' ! m))"
    and new: "it_id (items d ! i) \<in> set (u_owned (users d' ! r))"
    and only: "\<And>m x. m < length (users d) \<Longrightarrow> x \<in> set (u_owned (users d' ! m)) \<Longrightarrow>
                 x \<in> set (u_owned (users d ! m)) \<or> (m = r \<and> x = it_id (items d ! i))"
  shows "owner_consistent d'"
proof -
  have leni: "length (items d') = length (items d)"
    by (simp add: its)
  have same: "items d' ! k = items d ! k" if "k \<noteq> i" for k
    using that i(1) by (simp add: its nth_upd)
  have newi: "items d' ! i = (items d ! i)\<lparr>it_ownerId := Some (u_id (users d ! r))\<rparr>"
    using i(1) by (simp add: its nth_upd)
  have A: "\<exists>m<length (users d'). Some (u_id (users d' ! m)) = it_ownerId (items d' ! k)
             \<and> it_id (items d' ! k) \<in> set (u_owned (users d' ! m))"
    if k: "k < length (items d')" and t: "truthy (it_ownerId (items d' ! k))" for k
  proof (cases "k = i")
    case True
    have "r < length (users d')" using r(1) len by simp
    moreover have "Some (u_id (users d' ! r)) = it_ownerId (items d' ! i)"
      by (simp add: newi ids[OF r(1)])
    moreover have "it_id (items d' ! i) \<in> set (u_owned (users d' ! r))"
      using new by (simp add: newi)
    ultimately show ?thesis unfolding True by blast
  next
    case False
    from k t have "truthy (it_ownerId (items d ! k))" "k < length (items d)"
      by (simp_all add: same[OF False] leni)
    with inv obtain m where m: "m < length (users d)"
      "Some (u_id (users d ! m)) = it_ownerId (items d ! k)"
      "it_id (items d ! k) \<in> set (u_owned (users d ! m))"
      unfolding owner_consistent_nth by blast
    have "m < length (users d')" using m(1) len by simp
    moreover have "Some (u_id (users d' ! m)) = it_ownerId (items d' ! k)"
      by (simp add: same[OF False] ids[OF m(1)] m(2))
    moreover have "it_id (items d' ! k) \<in> set (u_owned (users d' ! m))"
      using keep[OF m(1)] m(3) by (auto simp add: same[OF False])
    ultimately show ?thesis by blast
  qed
  have B: "\<exists>k<length (items d'). it_id (items d' ! k) = x \<and> truthy (it_ownerId (items d' ! k))
          \<and> it_ownerId (items d' ! k) = Some (u_id (users d' ! m))"
    if m: "m < length (users d')" and x: "x \<in> set (u_owned (users d' ! m))" for m x
  proof -
    from m len have m': "m < length (users d)" by simp
    from only[OF m' x] show ?thesis
    proof
      assume "x \<in> set (u_owned (users d ! m))"
      with inv m' obtain k where k: "k < length (items d)" "it_id (items d ! k) = x"
        "truthy (it_ownerId (items d ! k))" "it_ownerId (items d ! k) = Some (u_id (users d ! m))"
        unfolding owner_consistent_nth by blast
      with i have ki: "k \<noteq> i" by auto
      have "k < length (items d')" using k(1) leni by simp
      moreover have "it_id (items d' ! k) = x" "truthy (it_ownerId (items d' ! k))"
        "it_ownerId (items d' ! k) = Some (u_id (users d' ! m))"
        using k by (simp_all add: same[OF ki] ids[OF m'])
      ultimately show ?thesis by blast
    next
      assume mx: "m = r \<and> x = it_id (items d ! i)"
      have "i < length (items d')" using i(1) leni by simp
      moreover have "it_id (items d' ! i) = x" "truthy (it_ownerId (items d' ! i))"
        "it_ownerId (items d' ! i) = Some (u_id (users d' ! m))"
        using mx r(2) by (simp_all add: newi ids[OF r(1)])
      ultimately show ?thesis by blast
    qed
  qed
  show ?thesis
    unfolding owner_consistent_nth using A B by blast
qed

lemma map_upd_same: "(\<And>x. g (f x) = g x) \<Longrightarrow> map g (upd j f xs) = map g xs"
  by (rule nth_equalityI) (simp_all add: nth_upd_any)


lemma pay_invalid_mode:
  "mode \<noteq> ''buy'' \<Longrightarrow> mode \<noteq> ''gift'' \<Longrightarrow> fst (tx_pay e c i mode t d) \<noteq> Success"
  by (auto simp: tx_pay_def transact_def Let_def split: option.splits)

lemma tx_pay_ids:
  "map u_id (users (snd (tx_pay e c i m t d))) = map u_id (users d)
   \<and> map it_id (items (snd (tx_pay e c i m t d))) = map it_id (items d)"
  by (auto simp: tx_pay_def transact_def Let_def map_upd_same split: option.splits)

lemma admin_gift_ids:
  "map u_id (users (snd (admin_gift e c t i d))) = map u_id (users d)
   \<and> map it_id (items (snd (admin_gift e c t i d))) = map it_id (items d)"
  by (auto simp: admin_gift_def adminOnly_def transact_def Let_def map_upd_same split: option.splits)

lemma buy_ok:
  assumes args: "itemId \<noteq> []"
    and b: "findIndex (\<lambda>u. u_id u = c_id c) (users d) = Some b"
    and i: "findIndex (\<lambda>y. it_id y = itemId) (items d) = Some i"
    and free: "\<not> truthy (it_ownerId (items d ! i))"
    and bal: "it_price (items d ! i) \<le> u_balance (users d ! b)"
  shows "tx_pay e c itemId ''buy'' to d =
     (Success,
      d\<lparr>users := upd b (\<lambda>u. u\<lparr>u_balance := u_balance u - it_price (items d ! i),
                               u_owned := u_owned u @ [itemId]\<rparr>) (users d),
        items := upd i (\<lambda>x. x\<lparr>it_ownerId := Some (c_id c)\<rparr>) (items d),
        history := history d @
          [\<lparr>h_userId = c_id c,
            h_t = ''Bought '' @ itemId @ '' for '' @ fmt e (it_price (items d ! i)) @ '' TON'',
            h_ts = now e 0\<rparr>]\<rparr>)"
proof -
  from findIndex_Some[OF b] have bb: "b < length (users d)" "u_id (users d ! b) = c_id c"
    by auto
  from findIndex_Some[OF i] have ii: "i < length (items d)" "it_id (items d ! i) = itemId"
    by auto
  show ?thesis
    using args b i free bal bb ii
    by (simp add: tx_pay_def transact_def Let_def nth_upd upd_upd)
qed

lemma gift_ok:
  assumes args: "itemId \<noteq> []" "toUserId \<noteq> []"
    and b: "findIndex (\<lambda>u. u_id u = c_id c) (users d) = Some b"
    and r: "findIndex (\<lambda>u. u_id u = toUserId) (users d) = Some r"
    and i: "findIndex (\<lambda>y. it_id y = itemId) (items d) = Some i"
    and free: "\<not> truthy (it_ownerId (items d ! i))"
    and bal: "it_price (items d ! i) \<le> u_balance (users d ! b)"
  shows "tx_pay e c itemId ''gift'' toUserId d =
     (Success,
      d\<lparr>users := upd r (\<lambda>u. u\<lparr>u_owned := u_owned u @ [itemId], u_gifts := u_gifts u + 1\<rparr>)
                 (upd b (\<lambda>u. u\<lparr>u_balance := u_balance u - it_price (items d ! i)\<rparr>) (users d)),
        items := upd i (\<lambda>x. x\<lparr>it_ownerId := Some toUserId\<rparr>) (items d),
        history := history d @
          [\<lparr>h_userId = c_id c,
            h_t = ''Gifted '' @ itemId @ '' to '' @ toUserId @ '' for ''
                  @ fmt e (it_price (items d ! i)) @ '' TON'',
            h_ts = now e 0\<rparr>,
           \<lparr>h_userId = toUserId,
            h_t = ''Received gift '' @ itemId @ '' from '' @ c_id c,
            h_ts = now e 1\<rparr>]\<rparr>)"
proof -
  from findIndex_Some[OF b] have bb: "b < length (users d)" "u_id (users d ! b) = c_id c"
    by auto
  from findIndex_Some[OF r] have rr: "r < length (users d)" "u_id (users d ! r) = toUserId"
    by auto
  from findIndex_Some[OF i] have ii: "i < length (items d)" "it_id (items d ! i) = itemId"
    by auto
  show ?thesis
  proof (cases "b = r")
    case True
    with bb rr have "c_id c = toUserId" by simp
    with True show ?thesis
      using args b r i free bal bb rr ii
      by (simp add: tx_pay_def transact_def Let_def nth_upd_any upd_upd)
  next
    case False
    then show ?thesis
      using args b r i free bal bb rr ii
      by (simp add: tx_pay_def transact_def Let_def nth_upd_any upd_upd)
  qed
qed

lemma buy_preserves:
  assumes inv: "owner_consistent d" and cid: "c_id c \<noteq> []"
  shows "owner_consistent (snd (tx_pay e c itemId ''buy'' to d))"
proof (cases "fst (tx_pay e c itemId ''buy'' to d) = Success")
  case False
  then show ?thesis using inv by (simp add: rej_pay)
next
  case True
  then obtain b i where
    b: "findIndex (\<lambda>u. u_id u = c_id c) (users d) = Some b" and
    i: "findIndex (\<lambda>y. it_id y = itemId) (items d) = Some i" and
    args: "itemId \<noteq> []" and
    free: "\<not> truthy (it_ownerId (items d ! i))" and
    bal: "it_price (items d ! i) \<le> u_balance (users d ! b)"
    by (auto simp: tx_pay_def transact_def Let_def split: if_splits option.splits)
  from findIndex_Some[OF b] have bb: "b < length (users d)" "u_id (users d ! b) = c_id c"
    by auto
  from findIndex_Some[OF i] have ii: "i < length (items d)" "it_id (items d ! i) = itemId"
    by auto
  note ok = buy_ok[OF args b i free bal, of e to]
  show ?thesis
    by (rule acquire_preserves[where d' = "snd (tx_pay e c itemId ''buy'' to d)",
          OF inv ii(1) free bb(1)])
       (use bb ii cid in \<open>auto simp add: ok nth_upd_any split: if_splits\<close>)
qed

lemma gift_preserves:
  assumes inv: "owner_consistent d"
  shows "owner_consistent (snd (tx_pay e c itemId ''gift'' toUserId d))"
proof (cases "fst (tx_pay e c itemId ''gift'' toUserId d) = Success")
  case False
  then show ?thesis using inv by (simp add: rej_pay)
next
  case True
  then obtain b r i where
    b: "findIndex (\<lambda>u. u_id u = c_id c) (users d) = Some b" and
    r: "findIndex (\<lambda>u. u_id u = toUserId) (users d) = Some r" and
    i: "findIndex (\<lambda>y. it_id y = itemId) (items d) = Some i" and
    args: "itemId \<noteq> []" "toUserId \<noteq> []" and
    free: "\<not> truthy (it_ownerId (items d ! i))" and
    bal: "it_price (items d ! i) \<le> u_balance (users d ! b)"
    by (auto simp: tx_pay_def transact_def Let_def split: if_splits option.splits)
  from findIndex_Some[OF b] have bb: "b < length (users d)" "u_id (users d ! b) = c_id c"
    by auto
  from findIndex_Some[OF r] have rr: "r < length (users d)" "u_id (users d ! r) = toUserId"
    by auto
  from findIndex_Some[OF i] have ii: "i < length (items d)" "it_id (items d ! i) = itemId"
    by auto
  note ok = gift_ok[OF args b r i free bal, of e]
  show ?thesis
    by (rule acquire_preserves[where d' = "snd (tx_pay e c itemId ''gift'' toUserId d)",
          OF inv ii(1) free rr(1)])
       (use bb rr ii args in \<open>auto simp add: ok nth_upd_any split: if_splits\<close>)
qed

lemma admin_gift_preserves:
  assumes inv: "owner_consistent d"
  shows "owner_consistent (snd (admin_gift e c toUserId itemId d))"
proof (cases "fst (admin_gift e c toUserId itemId d) = Success")
  case False
  then show ?thesis using inv by (simp add: rej_gift)
next
  case True
  then obtain r i where
    adm: "c_role c = ''admin''" and
    r: "findIndex (\<lambda>u. u_id u = toUserId) (users d) = Some r" and
    i: "findIndex (\<lambda>y. it_id y = itemId) (items d) = Some i" and
    args: "toUserId \<noteq> []" "itemId \<noteq> []" and
    free: "\<not> truthy (it_ownerId (items d ! i))" and
    bal: "it_price (items d ! i) \<le> u_balance (users d ! r)"
    by (auto simp: admin_gift_def adminOnly_def transact_def Let_def
        split: if_splits option.splits)
  from findIndex_Some[OF r] have rr: "r < length (users d)" "u_id (users d ! r) = toUserId"
    by auto
  from findIndex_Some[OF i] have ii: "i < length (items d)" "it_id (items d ! i) = itemId"
    by auto
  note ok = admin_gift_ok[OF adm args r i free bal, of e]
  show ?thesis
    by (rule acquire_preserves[where d' = "snd (admin_gift e c toUserId itemId d)",
          OF inv ii(1) free rr(1)])
       (use rr ii args in \<open>auto simp add: ok nth_upd_any split: if_splits\<close>)
qed

lemma findIndex_distinct:
  assumes "distinct (map f xs)" "m < length xs" "\<And>x. P x \<longleftrightarrow> f x = f (xs ! m)"
  shows "findIndex P xs = Some m"
proof (cases "findIndex P xs")
  case None
  with assms(2,3) show ?thesis
    by (auto simp: findIndex_None)
next
  case (Some j)
  from findIndex_Some[OF Some] assms(3) have j: "j < length xs" "f (xs ! j) = f (xs ! m)"
    by auto
  with assms(1,2) have "j = m"
    by (metis distinct_conv_nth length_map nth_map)
  with Some show ?thesis by simp
qed

lemma owned_only_by_owner:
  assumes inv: "owner_consistent d" and dis: "distinct_ids d"
    and i: "i < length (items d)" and m: "m < length (users d)"
    and x: "it_id (items d ! i) \<in> set (u_owned (users d ! m))"
  shows "truthy (it_ownerId (items d ! i))
       \<and> findIndex (\<lambda>u. Some (u_id u) = it_ownerId (items d ! i)) (users d) = Some m"
proof -
  from inv m x obtain k where k: "k < length (items d)"
    "it_id (items d ! k) = it_id (items d ! i)" "truthy (it_ownerId (items d ! k))"
    "it_ownerId (items d ! k) = Some (u_id (users d ! m))"
    unfolding owner_consistent_nth by blast
  from dis have "distinct (map it_id (items d))"
    by (simp add: distinct_ids_def)
  with k(1,2) i have "k = i"
    by (metis distinct_conv_nth length_map nth_map)
  from dis have du: "distinct (map u_id (users d))"
    by (simp add: distinct_ids_def)
  have "findIndex (\<lambda>u. Some (u_id u) = it_ownerId (items d ! i)) (users d) = Some m"
    by (rule findIndex_distinct[OF du m]) (use k(4) \<open>k = i\<close> in auto)
  with k(3) \<open>k = i\<close> show ?thesis by simp
qed

lemma release_length [simp]: "length (release i d) = length (users d)"
  by (simp add: release_def split: option.splits)

lemma release_id: "u_id (release i d ! m) = u_id (users d ! m)"
  by (simp add: release_def nth_upd_any split: option.splits)

lemma release_owned:
  assumes inv: "owner_consistent d" and dis: "distinct_ids d"
    and i: "i < length (items d)" and m: "m < length (users d)"
  shows "set (u_owned (release i d ! m)) = set (u_owned (users d ! m)) - {it_id (items d ! i)}"
proof (cases "it_id (items d ! i) \<in> set (u_owned (users d ! m))")
  case True
  from owned_only_by_owner[OF inv dis i m True] m show ?thesis
    by (auto simp: release_def nth_upd_any)
next
  case False
  then show ?thesis
    by (auto simp: release_def nth_upd_any split: option.splits)
qed

lemma move_preserves:
  assumes inv: "owner_consistent d" and dis: "distinct_ids d"
    and i: "i < length (items d)"
    and t: "t < length (users d)" "u_id (users d ! t) \<noteq> []"
    and its: "items d' = upd i (\<lambda>x. x\<lparr>it_ownerId := Some (u_id (users d ! t))\<rparr>) (items d)"
    and len: "length (users d') = length (users d)"
    and ids: "\<And>m. m < length (users d) \<Longrightarrow> u_id (users d' ! m) = u_id (users d ! m)"
    and own: "\<And>m. m < length (users d) \<Longrightarrow> set (u_owned (users d' ! m)) =
                (if m = t then insert (it_id (items d ! i)) (set (u_owned (users d ! m)))
                 else set (u_owned (users d ! m)) - {it_id (items d ! i)})"
  shows "owner_consistent d'"
proof -
  have leni: "length (items d') = length (items d)"
    by (simp add: its)
  have same: "items d' ! k = items d ! k" if "k \<noteq> i" for k
    using that i(1) by (simp add: its nth_upd)
  have newi: "items d' ! i = (items d ! i)\<lparr>it_ownerId := Some (u_id (users d ! t))\<rparr>"
    using i(1) by (simp add: its nth_upd)
  from dis have di: "distinct (map it_id (items d))"
    by (simp add: distinct_ids_def)
  have other: "it_id (items d ! k) \<noteq> it_id (items d ! i)" if "k \<noteq> i" "k < length (items d)" for k
    using that di i by (metis distinct_conv_nth length_map nth_map)
  have A: "\<exists>m<length (users d'). Some (u_id (users d' ! m)) = it_ownerId (items d' ! k)
             \<and> it_id (items d' ! k) \<in> set (u_owned (users d' ! m))"
    if k: "k < length (items d')" and tr: "truthy (it_ownerId (items d' ! k))" for k
  proof (cases "k = i")
    case True
    have "t < length (users d')" using t(1) len by simp
    moreover have "Some (u_id (users d' ! t)) = it_ownerId (items d' ! i)"
      by (simp add: newi ids[OF t(1)])
    moreover have "it_id (items d' ! i) \<in> set (u_owned (users d' ! t))"
      by (simp add: newi own[OF t(1)])
    ultimately show ?thesis unfolding True by blast
  next
    case False
    from k tr have k': "truthy (it_ownerId (items d ! k))" "k < length (items d)"
      by (simp_all add: same[OF False] leni)
    with inv obtain m where m: "m < length (users d)"
      "Some (u_id (users d ! m)) = it_ownerId (items d ! k)"
      "it_id (items d ! k) \<in> set (u_owned (users d ! m))"
      unfolding owner_consistent_nth by blast
    have "m < length (users d')" using m(1) len by simp
    moreover have "Some (u_id (users d' ! m)) = it_ownerId (items d' ! k)"
      by (simp add: same[OF False] ids[OF m(1)] m(2))
    moreover have "it_id (items d' ! k) \<in> set (u_owned (users d' ! m))"
      using m(3) other[OF False k'(2)] by (auto simp add: same[OF False] own[OF m(1)])
    ultimately show ?thesis by blast
  qed
  have B: "\<exists>k<length (items d'). it_id (items d' ! k) = x \<and> truthy (it_ownerId (items d' ! k))
          \<and> it_ownerId (items d' ! k) = Some (u_id (users d' ! m))"
    if m: "m < length (users d')" and x: "x \<in> set (u_owned (users d' ! m))" for m x
  proof (cases "m = t \<and> x = it_id (items d ! i)")
    case True
    have "i < length (items d')" using i(1) leni by simp
    moreover have "it_id (items d' ! i) = x" "truthy (it_ownerId (items d' ! i))"
      "it_ownerId (items d' ! i) = Some (u_id (users d' ! m))"
      using True t(2) by (simp_all add: newi ids[OF t(1)])
    ultimately show ?thesis by blast
  next
    case False
    from m len have m': "m < length (users d)" by simp
    from x False have x': "x \<in> set (u_owned (users d ! m))" "x \<noteq> it_id (items d ! i)"
      by (auto simp: own[OF m'] split: if_splits)
    with inv m' obtain k where k: "k < length (items d)" "it_id (items d ! k) = x"
      "truthy (it_ownerId (items d ! k))" "it_ownerId (items d ! k) = Some (u_id (users d ! m))"
      unfolding owner_consistent_nth by blast
    with x'(2) have ki: "k \<noteq> i" by auto
    have "k < length (items d')" using k(1) leni by simp
    moreover have "it_id (items d' ! k) = x" "truthy (it_ownerId (items d' ! k))"
      "it_ownerId (items d' ! k) = Some (u_id (users d' ! m))"
      using k by (simp_all add: same[OF ki] ids[OF m'])
    ultimately show ?thesis by blast
  qed
  show ?thesis
    unfolding owner_consistent_nth using A B by blast
qed

lemma release_db:
  "(if truthy (it_ownerId (items d ! i)) then
      (case findIndex (\<lambda>u. Some (u_id u) = it_ownerId (items d ! i)) (users d) of
         None \<Rightarrow> d
       | Some pv \<Rightarrow>
           d\<lparr>users := upd pv
             (\<lambda>u. u\<lparr>u_owned := filter (\<lambda>x. x \<noteq> it_id (items d ! i)) (u_owned u)\<rparr>)
             (users d)\<rparr>)
    else d) = d\<lparr>users := release i d\<rparr>"
  by (simp add: release_def split: option.splits)

lemma transfer_ok:
  assumes adm: "c_role c = ''admin''" and args: "itemId \<noteq> []" "toUserId \<noteq> []"
    and i: "findIndex (\<lambda>y. it_id y = itemId) (items d) = Some i"
    and t: "findIndex (\<lambda>u. u_id u = toUserId) (users d) = Some t"
  shows "fst (admin_transfer e c itemId toUserId d) = Success
    \<and> items (snd (admin_transfer e c itemId toUserId d))
        = upd i (\<lambda>x. x\<lparr>it_ownerId := Some toUserId\<rparr>) (items d)
    \<and> users (snd (admin_transfer e c itemId toUserId d))
        = (if itemId \<notin> set (u_owned (release i d ! t))
           then upd t (\<lambda>u. u\<lparr>u_owned := u_owned u @ [itemId]\<rparr>) (release i d)
           else release i d)"
proof -
  from findIndex_Some[OF t] have tt: "t < length (users d)" "u_id (users d ! t) = toUserId"
    by auto
  from findIndex_Some[OF i] have ii: "i < length (items d)" "it_id (items d ! i) = itemId"
    by auto
  have rid: "u_id (release i d ! t) = toUserId"
    by (simp add: release_id tt)
  show ?thesis
    using adm args i t ii rid
    by (simp add: admin_transfer_def adminOnly_def transact_def Let_def nth_upd release_db)
qed

lemma release_ids: "map u_id (release i d) = map u_id (users d)"
  by (simp add: release_def map_upd_same split: option.splits)

lemma transfer_preserves:
  assumes inv: "owner_consistent d" and dis: "distinct_ids d"
  shows "owner_consistent (snd (admin_transfer e c itemId toUserId d))
       \<and> distinct_ids (snd (admin_transfer e c itemId toUserId d))"
proof (cases "fst (admin_transfer e c itemId toUserId d) = Success")
  case False
  then show ?thesis using inv dis by (simp add: rej_transfer)
next
  case True
  then obtain i t where
    adm: "c_role c = ''admin''" and args: "itemId \<noteq> []" "toUserId \<noteq> []" and
    i: "findIndex (\<lambda>y. it_id y = itemId) (items d) = Some i" and
    t: "findIndex (\<lambda>u. u_id u = toUserId) (users d) = Some t"
    by (auto simp: admin_transfer_def adminOnly_def transact_def
        split: if_splits option.splits)
  from findIndex_Some[OF t] have tt: "t < length (users d)" "u_id (users d ! t) = toUserId"
    by auto
  from findIndex_Some[OF i] have ii: "i < length (items d)" "it_id (items d ! i) = itemId"
    by auto
  let ?d' = "snd (admin_transfer e c itemId toUserId d)"
  from transfer_ok[OF adm args i t, of e]
  have its: "items ?d' = upd i (\<lambda>x. x\<lparr>it_ownerId := Some toUserId\<rparr>) (items d)"
    and us: "users ?d' = (if itemId \<notin> set (u_owned (release i d ! t))
           then upd t (\<lambda>u. u\<lparr>u_owned := u_owned u @ [itemId]\<rparr>) (release i d)
           else release i d)"
    by simp_all
  have len: "length (users ?d') = length (users d)"
    by (simp add: us)
  have ids: "u_id (users ?d' ! m) = u_id (users d ! m)" for m
    by (simp add: us nth_upd_any release_id)
  have own: "set (u_owned (users ?d' ! m)) =
                (if m = t then insert (it_id (items d ! i)) (set (u_owned (users d ! m)))
                 else set (u_owned (users d ! m)) - {it_id (items d ! i)})"
    if m: "m < length (users d)" for m
    using release_owned[OF inv dis ii(1) m] release_owned[OF inv dis ii(1) tt(1)] tt(1)
    by (auto simp add: us nth_upd_any ii(2))
  have "owner_consistent ?d'"
    by (rule move_preserves[OF inv dis ii(1) tt(1) _ _ len ids own])
      (simp_all add: tt args its)
  moreover have "distinct_ids ?d'"
    using dis by (simp add: distinct_ids_def its us map_upd_same release_ids)
  ultimately show ?thesis by simp
qed

lemma burn_ok:
  assumes adm: "c_role c = ''admin''" and args: "itemId \<noteq> []"
    and i: "findIndex (\<lambda>y. it_id y = itemId) (items d) = Some i"
  shows "fst (admin_burn e c itemId d) = Success
    \<and> items (snd (admin_burn e c itemId d)) = filter (\<lambda>x. it_id x \<noteq> itemId) (items d)
    \<and> users (snd (admin_burn e c itemId d)) = release i d"
proof -
  from findIndex_Some[OF i] have ii: "i < length (items d)" "it_id (items d ! i) = itemId"
    by auto
  show ?thesis
    using adm args i ii
    by (simp add: admin_burn_def adminOnly_def transact_def Let_def release_db)
qed

lemma burn_preserves:
  assumes inv: "owner_consistent d" and dis: "distinct_ids d"
  shows "owner_consistent (snd (admin_burn e c itemId d))
       \<and> distinct_ids (snd (admin_burn e c itemId d))"
proof (cases "fst (admin_burn e c itemId d) = Success")
  case False
  then show ?thesis using inv dis by (simp add: rej_burn)
next
  case True
  then obtain i where
    adm: "c_role c = ''admin''" and args: "itemId \<noteq> []" and
    i: "findIndex (\<lambda>y. it_id y = itemId) (items d) = Some i"
    by (auto simp: admin_burn_def adminOnly_def transact_def split: if_splits option.splits)
  from findIndex_Some[OF i] have ii: "i < length (items d)" "it_id (items d ! i) = itemId"
    by auto
  let ?d' = "snd (admin_burn e c itemId d)"
  from burn_ok[OF adm args i, of e]
  have its: "items ?d' = filter (\<lambda>x. it_id x \<noteq> itemId) (items d)"
    and us: "users ?d' = release i d"
    by simp_all
  have own: "set (u_owned (release i d ! m)) = set (u_owned (users d ! m)) - {itemId}"
    if "m < length (users d)" for m
    using release_owned[OF inv dis ii(1) that] by (simp add: ii(2))
  have A: "\<exists>u \<in> set (users ?d'). Some (u_id u) = it_ownerId x \<and> it_id x \<in> set (u_owned u)"
    if x: "x \<in> set (items ?d')" and tr: "truthy (it_ownerId x)" for x
  proof -
    from x have x': "x \<in> set (items d)" "it_id x \<noteq> itemId"
      by (simp_all add: its)
    with inv tr obtain m where m: "m < length (users d)"
      "Some (u_id (users d ! m)) = it_ownerId x" "it_id x \<in> set (u_owned (users d ! m))"
      unfolding owner_consistent_def bex_nth[of "users d"] by blast
    have "release i d ! m \<in> set (users ?d')"
      using m(1) by (simp add: us)
    moreover have "Some (u_id (release i d ! m)) = it_ownerId x"
      by (simp add: release_id m(2))
    moreover have "it_id x \<in> set (u_owned (release i d ! m))"
      using m(3) x'(2) by (simp add: own[OF m(1)])
    ultimately show ?thesis by blast
  qed
  have B: "\<exists>x \<in> set (items ?d'). it_id x = y \<and> truthy (it_ownerId x)
             \<and> it_ownerId x = Some (u_id u)"
    if u: "u \<in> set (users ?d')" and y: "y \<in> set (u_owned u)" for u y
  proof -
    from u obtain m where m: "m < length (users d)" "u = release i d ! m"
      by (auto simp: us in_set_conv_nth)
    from y have y': "y \<in> set (u_owned (users d ! m))" "y \<noteq> itemId"
      by (simp_all add: m(2) own[OF m(1)])
    with inv m(1) obtain x where x: "x \<in> set (items d)" "it_id x = y" "truthy (it_ownerId x)"
      "it_ownerId x = Some (u_id (users d ! m))"
      unfolding owner_consistent_def ball_nth[of "users d"] by blast
    have "x \<in> set (items ?d')"
      using x(1,2) y'(2) by (simp add: its)
    moreover have "it_ownerId x = Some (u_id u)"
      by (simp add: x(4) m(2) release_id)
    ultimately show ?thesis using x(2,3) by blast
  qed
  have "owner_consistent ?d'"
    unfolding owner_consistent_def using A B by blast
  moreover have "distinct_ids ?d'"
    using dis by (simp add: distinct_ids_def its us release_ids distinct_map_filter)
  ultimately show ?thesis by simp
qed

lemma tx_pay_preserves:
  assumes inv: "owner_consistent d" and dis: "distinct_ids d" and cid: "c_id c \<noteq> []"
  shows "owner_consistent (snd (tx_pay e c itemId mode toUserId d))
       \<and> distinct_ids (snd (tx_pay e c itemId mode toUserId d))"
proof -
  have "owner_consistent (snd (tx_pay e c itemId mode toUserId d))"
  proof (cases "mode = ''buy''")
    case True
    then show ?thesis using buy_preserves[OF inv cid] by simp
  next
    case False
    show ?thesis
    proof (cases "mode = ''gift''")
      case True
      then show ?thesis using gift_preserves[OF inv] by simp
    next
      case other: False
      from pay_invalid_mode[OF False other] show ?thesis
        using inv by (simp add: rej_pay)
    qed
  qed
  moreover have "distinct_ids (snd (tx_pay e c itemId mode toUserId d))"
    using dis by (simp add: distinct_ids_def tx_pay_ids)
  ultimately show ?thesis by simp
qed

text \<open>
  Claim C5, as the handlers have it. Take a snapshot in which ownership is consistent
  (every item whose owner reference is set names a user whose owned list holds the item's
  identifier, and every identifier in a user's owned list is that of an item owned by that
  user) and in which no two users and no two items share an identifier. Then buy, gift,
  admin gift, transfer and burn, by a caller whose identifier is not empty, each leave a
  snapshot with the same two properties, whether they succeed or are rejected.
\<close>

theorem ownership_kept_consistent:
  assumes "owner_consistent d" and "distinct_ids d" and "c_id c \<noteq> []" and "changes_owner r"
  shows "owner_consistent (snd (route e c r d)) \<and> distinct_ids (snd (route e c r d))"
proof (cases r)
  case (TxPay itemId mode toUserId)
  then show ?thesis
    using tx_pay_preserves[OF assms(1-3)] by simp
next
  case (AdminGift toUserId itemId)
  have "distinct_ids (snd (admin_gift e c toUserId itemId d))"
    using assms(2) by (simp add: distinct_ids_def admin_gift_ids)
  with AdminGift show ?thesis
    using admin_gift_preserves[OF assms(1)] by simp
next
  case (Transfer itemId toUserId)
  then show ?thesis
    using transfer_preserves[OF assms(1,2)] by simp
next
  case (Burn itemId)
  then show ?thesis
    using burn_preserves[OF assms(1,2)] by simp
qed (use assms(4) in simp_all)

theorem ownership_kept_consistent_witness:
  "owner_consistent ledger0 \<and> distinct_ids ledger0
   \<and> fst (route env_a as_admin (Transfer ''nft_1001'' ''u_1001'') ledger0) = Success
   \<and> owner_consistent (snd (route env_a as_admin (Transfer ''nft_1001'' ''u_1001'') ledger0))
   \<and> distinct_ids (snd (route env_a as_admin (Transfer ''nft_1001'' ''u_1001'') ledger0))
   \<and> fst (route env_a as_alice (TxPay ''nft_1000'' ''gift'' ''u_1002'') ledger0) = Success
   \<and> owner_consistent (snd (route env_a as_alice (TxPay ''nft_1000'' ''gift'' ''u_1002'') ledger0))"
proof -
  have inv: "owner_consistent ledger0" and dis: "distinct_ids ledger0"
    by (simp_all add: owner_consistent_def distinct_ids_def fixture_defs)
  have cid: "c_id as_admin \<noteq> []" "c_id as_alice \<noteq> []"
    by (simp_all add: fixture_defs)
  have ok: "fst (route env_a as_admin (Transfer ''nft_1001'' ''u_1001'') ledger0) = Success"
    "fst (route env_a as_alice (TxPay ''nft_1000'' ''gift'' ''u_1002'') ledger0) = Success"
    by (simp_all add: admin_transfer_def tx_pay_def run_defs fixture_defs)
  from ownership_kept_consistent[OF inv dis cid(1), of "Transfer ''nft_1001'' ''u_1001''" env_a]
    ownership_kept_consistent[OF inv dis cid(2), of "TxPay ''nft_1000'' ''gift'' ''u_1002''" env_a]
    inv dis ok
  show ?thesis
    by simp
qed

text \<open>
  Item update and bulk import store the owner reference they are given and item delete
  removes an item, all three without a look at any owned list; and a transfer between
  items that share an identifier empties the list that still backs the twin.
\<close>

theorem ownership_broken_by_item_routes:
  "owner_consistent ledger0
   \<and> fst (admin_items_update as_admin ''nft_1000''
            (no_fields\<lparr>f_ownerId := Some (Some ''u_1001'')\<rparr>) ledger0) = Success
   \<and> \<not> owner_consistent (snd (admin_items_update as_admin ''nft_1000''
            (no_fields\<lparr>f_ownerId := Some (Some ''u_1001'')\<rparr>) ledger0))
   \<and> fst (admin_items_bulkImport env_a as_admin (Some [imported_owned]) ledger0) = Success
   \<and> \<not> owner_consistent
          (snd (admin_items_bulkImport env_a as_admin (Some [imported_owned]) ledger0))
   \<and> fst (admin_items_delete as_admin ''nft_1001'' ledger0) = Success
   \<and> \<not> owner_consistent (snd (admin_items_delete as_admin ''nft_1001'' ledger0))
   \<and> owner_consistent ledger_twins
   \<and> fst (admin_transfer env_a as_admin ''nft_1001'' ''u_1001'' ledger_twins) = Success
   \<and> \<not> owner_consistent
          (snd (admin_transfer env_a as_admin ''nft_1001'' ''u_1001'' ledger_twins))"
proof -
  have "owner_consistent ledger0"
    by (simp add: owner_consistent_def fixture_defs)
  moreover have "fst (admin_items_update as_admin ''nft_1000''
            (no_fields\<lparr>f_ownerId := Some (Some ''u_1001'')\<rparr>) ledger0) = Success
   \<and> \<not> owner_consistent (snd (admin_items_update as_admin ''nft_1000''
            (no_fields\<lparr>f_ownerId := Some (Some ''u_1001'')\<rparr>) ledger0))"
    by (simp add: owner_consistent_def admin_items_update_def assign_fields_def assign_def
        run_defs fixture_defs no_fields_def)
  moreover have "fst (admin_items_bulkImport env_a as_admin (Some [imported_owned]) ledger0)
       = Success
   \<and> \<not> owner_consistent
          (snd (admin_items_bulkImport env_a as_admin (Some [imported_owned]) ledger0))"
    by (simp add: owner_consistent_def admin_items_bulkImport_def import_one_def num_or_def
        next_item_id_def digit_def run_defs fixture_defs imported_owned_def)
  moreover have "fst (admin_items_delete as_admin ''nft_1001'' ledger0) = Success
   \<and> \<not> owner_consistent (snd (admin_items_delete as_admin ''nft_1001'' ledger0))"
    by (simp add: owner_consistent_def admin_items_delete_def run_defs fixture_defs)
  moreover have "owner_consistent ledger_twins
   \<and> fst (admin_transfer env_a as_admin ''nft_1001'' ''u_1001'' ledger_twins) = Success
   \<and> \<not> owner_consistent
          (snd (admin_transfer env_a as_admin ''nft_1001'' ''u_1001'' ledger_twins))"
    by (simp add: owner_consistent_def admin_transfer_def run_defs fixture_defs
        ledger_twins_def)
  ultimately show ?thesis
    by simp
qed

subsection \<open>A caller without a user record\<close>

lemma pay_absent_caller:
  assumes "find_user d (c_id c) = None" and "find_item d itemId = Some it"
    and "\<not> truthy (it_ownerId it)" and "itemId \<noteq> []"
  shows "tx_pay e c itemId ''buy'' to d = (TypeError, d)"
    and "toUserId \<noteq> [] \<Longrightarrow> find_user d toUserId = Some r \<Longrightarrow>
           tx_pay e c itemId ''gift'' toUserId d = (TypeError, d)"
proof -
  from assms(2) obtain i where i: "findIndex (\<lambda>y. it_id y = itemId) (items d) = Some i"
    "items d ! i = it"
    by (rule find_itemD)
  from assms(1) have b: "findIndex (\<lambda>u. u_id u = c_id c) (users d) = None"
    by (simp add: find_user_def)
  show "tx_pay e c itemId ''buy'' to d = (TypeError, d)"
    using i b assms(3,4) by (simp add: tx_pay_def transact_def)
  show "tx_pay e c itemId ''gift'' toUserId d = (TypeError, d)"
    if "toUserId \<noteq> []" "find_user d toUserId = Some r"
    using i b assms(3,4) that by (auto simp add: tx_pay_def transact_def find_user_def)
qed

text \<open>
  Claim C7 asks for a not-found rejection when the caller of buy or gift has no user
  record. Where the withdrawal handler checks \<^verbatim>\<open>if (!me)\<close> and answers 404, the handler of
  \<^verbatim>\<open>/api/tx/pay\<close> reads \<^verbatim>\<open>buyer.balance\<close> of \<^verbatim>\<open>undefined\<close>: the request of a caller who is not
  in the snapshot, for an unsold item, ends in an uncaught \<^verbatim>\<open>TypeError\<close> in both modes. The
  snapshot is unchanged. A deposit request of the same caller is accepted: its handler does
  not look the user up.
\<close>

theorem pay_without_user_record_throws:
  "find_user ledger0 (c_id as_stranger) = None
   \<and> tx_pay env_a as_stranger ''nft_1000'' ''buy'' [] ledger0 = (TypeError, ledger0)
   \<and> tx_pay env_a as_stranger ''nft_1000'' ''gift'' ''u_1001'' ledger0 = (TypeError, ledger0)
   \<and> withdraw_request env_a as_stranger (Some 1) ''EQ0123456789'' ledger0
        = (Reject 404 ''User not found'', ledger0)
   \<and> fst (deposit_request env_a as_stranger (Some 1) ledger0) = Success"
  by (simp add: find_user_def tx_pay_def withdraw_request_def withdraw_mutator_def
      deposit_request_def run_defs fixture_defs as_stranger_def)

subsection \<open>Two withdrawals in flight\<close>

lemma withdraw_request_transact:
  "0 < amt \<Longrightarrow> 5 \<le> length addr \<Longrightarrow>
     withdraw_request e c (Some amt) addr = transact (withdraw_mutator e c amt addr)"
  by (auto simp: withdraw_request_def fun_eq_iff)

text \<open>A request that has the server to itself is \<^const>\<open>transact\<close>.\<close>

lemma run_alone:
  "run [w] [0, 0] file = \<lparr>disk = snd (transact w file), tasks = [Done (fst (transact w file))]\<rparr>"
  by (cases "w file"; cases "fst (w file)")
    (simp_all add: run_def turn_def transact_def split: outcome.splits)

text \<open>
  Claim C9 asks that of two withdrawals of the full balance at most one succeeds. Alice
  holds 10 TON and sends two withdrawals of 10. Served one after the other, the second is
  answered \<^verbatim>\<open>Insufficient balance\<close>. When the second request loads the file before the first
  has saved, both are answered with success; the file that remains holds the balance 0 and
  the second payment only.
\<close>

theorem both_withdrawals_succeed:
  "balance_of ledger0 ''u_1001'' = Some 10
   \<and> tasks (run [withdraw_mutator env_a as_alice 10 ''EQ0123456789'',
                  withdraw_mutator env_b as_alice 10 ''EQ0123456789''] [0, 1, 0, 1] ledger0)
       = [Done Success, Done Success]
   \<and> balance_of (disk (run [withdraw_mutator env_a as_alice 10 ''EQ0123456789'',
                  withdraw_mutator env_b as_alice 10 ''EQ0123456789''] [0, 1, 0, 1] ledger0))
        ''u_1001'' = Some 0
   \<and> map p_id (or_empty (payments (disk (run
                 [withdraw_mutator env_a as_alice 10 ''EQ0123456789'',
                  withdraw_mutator env_b as_alice 10 ''EQ0123456789''] [0, 1, 0, 1] ledger0))))
       = [''bbbbbbbbbbb0'']
   \<and> tasks (run [withdraw_mutator env_a as_alice 10 ''EQ0123456789'',
                  withdraw_mutator env_b as_alice 10 ''EQ0123456789''] [0, 0, 1, 1] ledger0)
       = [Done Success, Done (Reject 400 ''Insufficient balance'')]"
  by (simp add: run_def turn_def withdraw_mutator_def balance_of_def find_user_def run_defs
      fixture_defs)

subsection \<open>Item identifiers\<close>

text \<open>
  Claim C10 asks that creation and bulk import never reuse an identifier. The identifier
  is \<^verbatim>\<open>'nft_' + (1000 + db.items.length)\<close>, and the length goes down when an item is deleted
  or burned: after \<^verbatim>\<open>nft_1000\<close> is deleted (or burned) from a ledger that holds \<^verbatim>\<open>nft_1000\<close>
  and \<^verbatim>\<open>nft_1001\<close>, the next created (or imported) item is a second \<^verbatim>\<open>nft_1001\<close>.
\<close>

theorem item_id_reused_after_delete:
  "map it_id (items ledger0) = [''nft_1000'', ''nft_1001'']
   \<and> fst (serve [(env_a, as_admin, ItemsDelete ''nft_1000''),
                 (env_a, as_admin, ItemsCreate ''Tulip'' (Some 3) [] None None)] ledger0)
       = [Success, Success]
   \<and> map it_id (items (snd (serve
        [(env_a, as_admin, ItemsDelete ''nft_1000''),
         (env_a, as_admin, ItemsCreate ''Tulip'' (Some 3) [] None None)] ledger0)))
       = [''nft_1001'', ''nft_1001'']
   \<and> map it_id (items (snd (serve
        [(env_a, as_admin, Burn ''nft_1000''),
         (env_a, as_admin, ItemsBulkImport (Some [imported_owned]))] ledger0)))
       = [''nft_1001'', ''nft_1001'']"
  by (simp add: admin_items_delete_def admin_items_create_def admin_burn_def
      admin_items_bulkImport_def import_one_def num_or_def next_item_id_def digit_def run_defs
      fixture_defs imported_owned_def)

end
